theory Spec2Isabelle
  imports Main "HOL-Library.Word"
begin

unbundle bit_operations_syntax

section \<open>JavaScript values\<close>

text \<open>
  A JavaScript string is a sequence of UTF-16 code units. \<open>js\<close> writes an ASCII literal
  as such a sequence.
\<close>

type_synonym jsstring = "16 word list"

definition js :: "string \<Rightarrow> jsstring" where
  "js s = map of_char s"

text \<open>
  The values a cell can hold. \<open>Obj r\<close> is an object (a React element, an array, an
  \<open>Error\<close>) with reference \<open>r\<close>: two objects are \<open>===\<close> exactly when they are the
  same reference, strings and the other primitives when they are the same value, so
  \<open>===\<close> is equality of this datatype. Numbers are left out (no operation of the cells
  looks inside one).
\<close>

datatype jsvalue = Undefined | Null | Bool bool | Str jsstring | Obj nat

text \<open>\<open>value.startsWith(t)\<close> and \<open>value.slice(n)\<close> for \<open>0 \<le> n\<close>.\<close>

definition startsWith :: "jsstring \<Rightarrow> jsstring \<Rightarrow> bool" where
  "startsWith s t = (take (length t) s = t)"

definition slice_from :: "jsstring \<Rightarrow> nat \<Rightarrow> jsstring" where
  "slice_from s n = drop n s"

text \<open>A thrown \<open>new Error(message)\<close>.\<close>

datatype fault = Fault jsstring

text \<open>
  Promises are numbered; the store lists the settled ones in the order they were settled.
  Settling a promise that is already settled does nothing, as in JavaScript.
\<close>

datatype 'a settlement = Resolved 'a | Rejected jsvalue

definition settle :: "nat \<Rightarrow> 'a settlement \<Rightarrow> (nat \<times> 'a settlement) list \<Rightarrow> (nat \<times> 'a settlement) list" where
  "settle p s ps = (if map_of ps p = None then ps @ [(p, s)] else ps)"

text \<open>
  The idle-warning timer of a cell: \<open>warnUnclosedStream\<close> re-arms it in development
  mode, \<open>done\<close> and \<open>error\<close> clear it. \<open>tm_handle\<close> is the variable \<open>warningTimeout\<close>,
  \<open>tm_armed\<close> says whether that timeout is still scheduled, \<open>tm_count\<close> counts the
  timeouts created so far.
\<close>

record timer =
  tm_dev :: bool
  tm_handle :: "nat option"
  tm_armed :: bool
  tm_count :: nat

definition warnUnclosedStream :: "timer \<Rightarrow> timer" where
  "warnUnclosedStream t =
     (if tm_dev t
      then t\<lparr>tm_handle := Some (Suc (tm_count t)), tm_armed := True, tm_count := Suc (tm_count t)\<rparr>
      else t)"

definition clearWarning :: "timer \<Rightarrow> timer" where
  "clearWarning t = (if tm_handle t \<noteq> None then t\<lparr>tm_armed := False\<rparr> else t)"

definition new_timer :: "bool \<Rightarrow> timer" where
  "new_timer dev = \<lparr>tm_dev = dev, tm_handle = None, tm_armed = False, tm_count = 0\<rparr>"

section \<open>The streamable UI (createStreamableUI)\<close>

text \<open>A revision as the UI cell publishes it: \<open>{value, done, append, next}\<close>.\<close>

record ui_row =
  row_value :: jsvalue
  row_done :: bool
  row_append :: bool
  row_next :: "nat option"

text \<open>
  The closure variables of \<open>createStreamableUI\<close>. \<open>ui_resolve\<close> is the promise that
  the variables \<open>resolve\<close> and \<open>reject\<close> settle (the open tail).
\<close>

record ui_cell =
  ui_currentValue :: jsvalue
  ui_closed :: bool
  ui_resolve :: nat
  ui_promises :: "(nat \<times> ui_row settlement) list"
  ui_fresh :: nat
  ui_timer :: timer

definition createStreamableUI :: "jsvalue \<Rightarrow> bool \<Rightarrow> ui_cell" where
  "createStreamableUI initialValue dev =
     \<lparr>ui_currentValue = initialValue, ui_closed = False, ui_resolve = 0,
      ui_promises = [], ui_fresh = 1, ui_timer = warnUnclosedStream (new_timer dev)\<rparr>"

definition ui_assertStream :: "string \<Rightarrow> ui_cell \<Rightarrow> fault option" where
  "ui_assertStream method c =
     (if ui_closed c then Some (Fault (js method @ js '': UI stream is already closed.'')) else None)"

definition ui_update :: "jsvalue \<Rightarrow> ui_cell \<Rightarrow> fault + ui_cell" where
  "ui_update v c =
     (case ui_assertStream ''.update()'' c of
        Some f \<Rightarrow> Inl f
      | None \<Rightarrow>
          if v = ui_currentValue c
          then Inr (c\<lparr>ui_timer := warnUnclosedStream (ui_timer c)\<rparr>)
          else
            let p = ui_fresh c in
            Inr (c\<lparr>ui_currentValue := v,
                   ui_promises := settle (ui_resolve c)
                     (Resolved \<lparr>row_value = v, row_done = False, row_append = False, row_next = Some p\<rparr>)
                     (ui_promises c),
                   ui_resolve := p,
                   ui_fresh := Suc p,
                   ui_timer := warnUnclosedStream (ui_timer c)\<rparr>))"

definition ui_append :: "jsvalue \<Rightarrow> ui_cell \<Rightarrow> fault + ui_cell" where
  "ui_append v c =
     (case ui_assertStream ''.append()'' c of
        Some f \<Rightarrow> Inl f
      | None \<Rightarrow>
          let p = ui_fresh c in
          Inr (c\<lparr>ui_currentValue := v,
                 ui_promises := settle (ui_resolve c)
                   (Resolved \<lparr>row_value = v, row_done = False, row_append = True, row_next = Some p\<rparr>)
                   (ui_promises c),
                 ui_resolve := p,
                 ui_fresh := Suc p,
                 ui_timer := warnUnclosedStream (ui_timer c)\<rparr>))"

definition ui_error :: "jsvalue \<Rightarrow> ui_cell \<Rightarrow> fault + ui_cell" where
  "ui_error e c =
     (case ui_assertStream ''.error()'' c of
        Some f \<Rightarrow> Inl f
      | None \<Rightarrow>
          Inr (c\<lparr>ui_closed := True,
                 ui_promises := settle (ui_resolve c) (Rejected e) (ui_promises c),
                 ui_timer := clearWarning (ui_timer c)\<rparr>))"

text \<open>\<open>done(...args)\<close>: \<open>None\<close> is the call with no argument.\<close>

definition ui_done :: "jsvalue option \<Rightarrow> ui_cell \<Rightarrow> fault + ui_cell" where
  "ui_done args c =
     (case ui_assertStream ''.done()'' c of
        Some f \<Rightarrow> Inl f
      | None \<Rightarrow>
          let c1 = c\<lparr>ui_closed := True, ui_timer := clearWarning (ui_timer c)\<rparr> in
          (case args of
             Some v \<Rightarrow>
               Inr (c1\<lparr>ui_promises := settle (ui_resolve c)
                      (Resolved \<lparr>row_value = v, row_done = True, row_append = False, row_next = None\<rparr>)
                      (ui_promises c)\<rparr>)
           | None \<Rightarrow>
               Inr (c1\<lparr>ui_promises := settle (ui_resolve c)
                      (Resolved \<lparr>row_value = ui_currentValue c, row_done = True, row_append = False,
                                 row_next = None\<rparr>)
                      (ui_promises c)\<rparr>)))"

text \<open>
  The producer's calls. A call that throws changes nothing (\<open>assertStream\<close> is its first
  statement), so a caller that catches the fault goes on with the cell as it was.
\<close>

datatype ui_call = UiUpdate jsvalue | UiAppend jsvalue | UiError jsvalue | UiDone "jsvalue option"

fun ui_perform :: "ui_call \<Rightarrow> ui_cell \<Rightarrow> fault + ui_cell" where
  "ui_perform (UiUpdate v) c = ui_update v c"
| "ui_perform (UiAppend v) c = ui_append v c"
| "ui_perform (UiError e) c = ui_error e c"
| "ui_perform (UiDone a) c = ui_done a c"

fun ui_after :: "ui_call list \<Rightarrow> ui_cell \<Rightarrow> ui_cell" where
  "ui_after [] c = c"
| "ui_after (x # xs) c =
     (case ui_perform x c of Inl f \<Rightarrow> ui_after xs c | Inr c' \<Rightarrow> ui_after xs c')"

fun ui_faults :: "ui_call list \<Rightarrow> ui_cell \<Rightarrow> fault option list" where
  "ui_faults [] c = []"
| "ui_faults (x # xs) c =
     (case ui_perform x c of
        Inl f \<Rightarrow> Some f # ui_faults xs c
      | Inr c' \<Rightarrow> None # ui_faults xs c')"

fun ui_method :: "ui_call \<Rightarrow> string" where
  "ui_method (UiUpdate v) = ''.update()''"
| "ui_method (UiAppend v) = ''.append()''"
| "ui_method (UiError e) = ''.error()''"
| "ui_method (UiDone a) = ''.done()''"

section \<open>The streamable value (createStreamableValue)\<close>

text \<open>
  A patch \<open>[0, suffix]\<close> (\<open>StreamablePatch\<close>), and the record \<open>createWrapped\<close> builds:
  each field is present or absent; \<open>w_type\<close> says whether the type tag is set.
\<close>

type_synonym patch = "nat \<times> jsstring"

record wrapped =
  w_curr :: "jsvalue option"
  w_diff :: "patch option"
  w_error :: "jsvalue option"
  w_next :: "nat option"
  w_type :: bool

definition empty_wrapped :: wrapped where
  "empty_wrapped = \<lparr>w_curr = None, w_diff = None, w_error = None, w_next = None, w_type = False\<rparr>"

record value_cell =
  vc_closed :: bool
  vc_resolvable :: nat
  vc_currentValue :: jsvalue
  vc_currentError :: jsvalue
  vc_currentPromise :: "nat option"
  vc_currentPatchValue :: "patch option"
  vc_promises :: "(nat \<times> wrapped settlement) list"
  vc_fresh :: nat
  vc_timer :: timer

definition createStreamableValue :: "jsvalue \<Rightarrow> bool \<Rightarrow> value_cell" where
  "createStreamableValue initialValue dev =
     \<lparr>vc_closed = False, vc_resolvable = 0, vc_currentValue = initialValue,
      vc_currentError = Undefined, vc_currentPromise = Some 0, vc_currentPatchValue = None,
      vc_promises = [], vc_fresh = 1, vc_timer = warnUnclosedStream (new_timer dev)\<rparr>"

definition vc_assertStream :: "string \<Rightarrow> value_cell \<Rightarrow> fault option" where
  "vc_assertStream method c =
     (if vc_closed c then Some (Fault (js method @ js '': Value stream is already closed.'')) else None)"

definition createWrapped :: "bool \<Rightarrow> value_cell \<Rightarrow> wrapped" where
  "createWrapped initialChunk c =
     (let init =
            (if vc_currentError c \<noteq> Undefined
             then empty_wrapped\<lparr>w_error := Some (vc_currentError c)\<rparr>
             else if vc_currentPatchValue c \<noteq> None \<and> \<not> initialChunk
             then empty_wrapped\<lparr>w_diff := vc_currentPatchValue c\<rparr>
             else empty_wrapped\<lparr>w_curr := Some (vc_currentValue c)\<rparr>);
          init1 = (if vc_currentPromise c \<noteq> None then init\<lparr>w_next := vc_currentPromise c\<rparr> else init)
      in if initialChunk then init1\<lparr>w_type := True\<rparr> else init1)"

definition updateValueStates :: "jsvalue \<Rightarrow> value_cell \<Rightarrow> value_cell" where
  "updateValueStates v c =
     (let c1 = c\<lparr>vc_currentPatchValue := None\<rparr>;
          c2 = (case v of
                  Str s \<Rightarrow>
                    (case vc_currentValue c1 of
                       Str cur \<Rightarrow>
                         if startsWith s cur
                         then c1\<lparr>vc_currentPatchValue := Some (0, slice_from s (length cur))\<rparr>
                         else c1
                     | _ \<Rightarrow> c1)
                | _ \<Rightarrow> c1)
      in c2\<lparr>vc_currentValue := v\<rparr>)"

text \<open>The getter \<open>value\<close>.\<close>

definition vc_value :: "value_cell \<Rightarrow> wrapped" where
  "vc_value c = createWrapped True c"

definition vc_update :: "jsvalue \<Rightarrow> value_cell \<Rightarrow> fault + value_cell" where
  "vc_update v c =
     (case vc_assertStream ''.update()'' c of
        Some f \<Rightarrow> Inl f
      | None \<Rightarrow>
          let resolvePrevious = vc_resolvable c;
              p = vc_fresh c;
              c1 = c\<lparr>vc_resolvable := p, vc_fresh := Suc p\<rparr>;
              c2 = updateValueStates v c1;
              c3 = c2\<lparr>vc_currentPromise := Some p\<rparr>;
              c4 = c3\<lparr>vc_promises := settle resolvePrevious (Resolved (createWrapped False c3)) (vc_promises c3)\<rparr>
          in Inr (c4\<lparr>vc_timer := warnUnclosedStream (vc_timer c4)\<rparr>))"

definition vc_error :: "jsvalue \<Rightarrow> value_cell \<Rightarrow> fault + value_cell" where
  "vc_error e c =
     (case vc_assertStream ''.error()'' c of
        Some f \<Rightarrow> Inl f
      | None \<Rightarrow>
          Inr (c\<lparr>vc_timer := clearWarning (vc_timer c),
                 vc_closed := True,
                 vc_currentError := e,
                 vc_currentPromise := None,
                 vc_promises := settle (vc_resolvable c)
                   (Resolved (empty_wrapped\<lparr>w_error := Some e\<rparr>)) (vc_promises c)\<rparr>))"

definition vc_done :: "jsvalue option \<Rightarrow> value_cell \<Rightarrow> fault + value_cell" where
  "vc_done args c =
     (case vc_assertStream ''.done()'' c of
        Some f \<Rightarrow> Inl f
      | None \<Rightarrow>
          let c1 = c\<lparr>vc_timer := clearWarning (vc_timer c), vc_closed := True,
                     vc_currentPromise := None\<rparr>
          in (case args of
                Some v \<Rightarrow>
                  let c2 = updateValueStates v c1
                  in Inr (c2\<lparr>vc_promises := settle (vc_resolvable c2)
                            (Resolved (createWrapped False c2)) (vc_promises c2)\<rparr>)
              | None \<Rightarrow>
                  Inr (c1\<lparr>vc_promises := settle (vc_resolvable c1)
                         (Resolved empty_wrapped) (vc_promises c1)\<rparr>)))"

datatype vc_call = VcUpdate jsvalue | VcError jsvalue | VcDone "jsvalue option"

fun vc_perform :: "vc_call \<Rightarrow> value_cell \<Rightarrow> fault + value_cell" where
  "vc_perform (VcUpdate v) c = vc_update v c"
| "vc_perform (VcError e) c = vc_error e c"
| "vc_perform (VcDone a) c = vc_done a c"

fun vc_after :: "vc_call list \<Rightarrow> value_cell \<Rightarrow> value_cell" where
  "vc_after [] c = c"
| "vc_after (x # xs) c =
     (case vc_perform x c of Inl f \<Rightarrow> vc_after xs c | Inr c' \<Rightarrow> vc_after xs c')"

fun vc_faults :: "vc_call list \<Rightarrow> value_cell \<Rightarrow> fault option list" where
  "vc_faults [] c = []"
| "vc_faults (x # xs) c =
     (case vc_perform x c of
        Inl f \<Rightarrow> Some f # vc_faults xs c
      | Inr c' \<Rightarrow> None # vc_faults xs c')"

fun vc_method :: "vc_call \<Rightarrow> string" where
  "vc_method (VcUpdate v) = ''.update()''"
| "vc_method (VcError e) = ''.error()''"
| "vc_method (VcDone a) = ''.done()''"

text \<open>
  Modelled from the spec: the consumer's rule for merging a patch \<open>(offset, suffix)\<close> into
  its local running string, \<open>local = local.slice(0, offset) + suffix\<close>. The consumer (the
  reader of a streamable value) is not among the sources.
\<close>

definition patch_apply :: "jsstring \<Rightarrow> patch \<Rightarrow> jsstring" where
  "patch_apply local p = take (fst p) local @ snd p"

text \<open>The patch \<open>updateValueStates\<close> leaves for a cell whose value changes from \<open>a\<close> to \<open>b\<close>.\<close>

definition patch_of_update :: "value_cell \<Rightarrow> jsstring \<Rightarrow> jsstring \<Rightarrow> patch option" where
  "patch_of_update c a b =
     vc_currentPatchValue (updateValueStates (Str b) (c\<lparr>vc_currentValue := Str a\<rparr>))"

text \<open>The fault a call on a closed cell throws.\<close>

definition ui_fault :: "ui_call \<Rightarrow> fault" where
  "ui_fault x = Fault (js (ui_method x) @ js '': UI stream is already closed.'')"

definition vc_fault :: "vc_call \<Rightarrow> fault" where
  "vc_fault x = Fault (js (vc_method x) @ js '': Value stream is already closed.'')"

text \<open>
  What holds of a cell however it was driven: promise numbers below \<open>fresh\<close> only, and
  the tail of an open cell not settled yet (an open value cell has no error either).
\<close>

definition ui_inv :: "ui_cell \<Rightarrow> bool" where
  "ui_inv c = (ui_resolve c < ui_fresh c
      \<and> list_all (\<lambda>e. fst e < ui_fresh c) (ui_promises c)
      \<and> (ui_closed c \<or> map_of (ui_promises c) (ui_resolve c) = None))"

definition vc_inv :: "value_cell \<Rightarrow> bool" where
  "vc_inv c = (vc_resolvable c < vc_fresh c
      \<and> list_all (\<lambda>e. fst e < vc_fresh c) (vc_promises c)
      \<and> (vc_closed c \<or> (map_of (vc_promises c) (vc_resolvable c) = None \<and> vc_currentError c = Undefined)))"

section \<open>JSON text (JSON.stringify)\<close>

text \<open>
  A JSON value as \<open>JSON.stringify\<close> sees it; an object lists the properties that
  \<open>JSON.stringify\<close> prints, in the order it visits them (integer-like keys first in
  ascending order, then the others in creation order; a property whose value is
  \<open>undefined\<close> is not printed and not listed). Numbers are left out: the payloads of
  the events below are strings, arrays and objects.
\<close>

datatype json = JNull | JBool bool | JString jsstring | JArray "json list" | JObject "(jsstring \<times> json) list"

text \<open>
  \<open>QuoteJSONString\<close> of ECMAScript: the two-character escapes, \<open>\u\<close> followed by four
  lower-case hex digits for the other control characters and for lone surrogates, every
  other code unit (and every surrogate pair) as it is.
\<close>

definition hex_digit :: "16 word \<Rightarrow> 16 word" where
  "hex_digit n = js ''0123456789abcdef'' ! unat n"

definition unicodeEscape :: "16 word \<Rightarrow> jsstring" where
  "unicodeEscape c =
     [0x5C, 0x75, hex_digit (drop_bit 12 c), hex_digit (drop_bit 8 c AND 0xF),
      hex_digit (drop_bit 4 c AND 0xF), hex_digit (c AND 0xF)]"

definition is_lead :: "16 word \<Rightarrow> bool" where
  "is_lead c = (0xD800 \<le> c \<and> c \<le> 0xDBFF)"

definition is_trail :: "16 word \<Rightarrow> bool" where
  "is_trail c = (0xDC00 \<le> c \<and> c \<le> 0xDFFF)"

definition quote_unit :: "16 word \<Rightarrow> jsstring" where
  "quote_unit c =
     (if c = 0x08 then 0x5C # js ''b''
      else if c = 0x09 then 0x5C # js ''t''
      else if c = 0x0A then 0x5C # js ''n''
      else if c = 0x0C then 0x5C # js ''f''
      else if c = 0x0D then 0x5C # js ''r''
      else if c = 0x22 then [0x5C, 0x22]
      else if c = 0x5C then [0x5C, 0x5C]
      else if c < 0x20 \<or> is_lead c \<or> is_trail c then unicodeEscape c
      else [c])"

fun quote_units :: "jsstring \<Rightarrow> jsstring" where
  "quote_units (c # d # ds) =
     (if is_lead c \<and> is_trail d then c # d # quote_units ds
      else quote_unit c @ quote_units (d # ds))"
| "quote_units [c] = quote_unit c"
| "quote_units [] = []"

definition quoteJSONString :: "jsstring \<Rightarrow> jsstring" where
  "quoteJSONString s = 0x22 # quote_units s @ [0x22]"

text \<open>\<open>JSON.stringify(v)\<close> with no indentation: no white space between the tokens.\<close>

fun join_comma :: "jsstring list \<Rightarrow> jsstring" where
  "join_comma [] = []"
| "join_comma [x] = x"
| "join_comma (x # y # ys) = x @ 0x2C # join_comma (y # ys)"

fun stringify :: "json \<Rightarrow> jsstring" where
  "stringify JNull = js ''null''"
| "stringify (JBool b) = (if b then js ''true'' else js ''false'')"
| "stringify (JString s) = quoteJSONString s"
| "stringify (JArray xs) = js ''['' @ join_comma (map stringify xs) @ js '']''"
| "stringify (JObject kvs) =
     js ''{'' @ join_comma (map (\<lambda>kv. quoteJSONString (fst kv) @ js '':'' @ stringify (snd kv)) kvs) @ js ''}''"


section \<open>AssistantResponse\<close>

text \<open>
  \<open>TextEncoder.encode\<close>: the UTF-8 bytes of the string's code points, a lone surrogate
  read as U+FFFD.
\<close>

definition is_surrogate :: "16 word \<Rightarrow> bool" where
  "is_surrogate c = (is_lead c \<or> is_trail c)"

fun code_points :: "jsstring \<Rightarrow> 32 word list" where
  "code_points (c # d # ds) =
     (if is_lead c \<and> is_trail d
      then (0x10000 + push_bit 10 (ucast (c - 0xD800)) + ucast (d - 0xDC00)) # code_points ds
      else (if is_surrogate c then 0xFFFD else ucast c) # code_points (d # ds))"
| "code_points [c] = [if is_surrogate c then 0xFFFD else ucast c]"
| "code_points [] = []"

definition utf8_bytes :: "32 word \<Rightarrow> 8 word list" where
  "utf8_bytes cp =
     (if cp < 0x80 then [ucast cp]
      else if cp < 0x800 then [0xC0 OR ucast (drop_bit 6 cp), 0x80 OR ucast (cp AND 0x3F)]
      else if cp < 0x10000
      then [0xE0 OR ucast (drop_bit 12 cp), 0x80 OR ucast (drop_bit 6 cp AND 0x3F),
            0x80 OR ucast (cp AND 0x3F)]
      else [0xF0 OR ucast (drop_bit 18 cp), 0x80 OR ucast (drop_bit 12 cp AND 0x3F),
            0x80 OR ucast (drop_bit 6 cp AND 0x3F), 0x80 OR ucast (cp AND 0x3F)])"

definition textEncoder_encode :: "jsstring \<Rightarrow> 8 word list" where
  "textEncoder_encode s = concat (map utf8_bytes (code_points s))"

text \<open>
  The three callbacks of \<open>AssistantResponse\<close>. \<open>event_text\<close> is the template literal
  each of them passes to the encoder, \<open>enqueue_event\<close> the bytes it enqueues;
  \<open>event_prefix\<close> and \<open>event_payload\<close> name the two parts of the text.
\<close>

datatype assistant_event = SendStatus json | SendThreadId jsstring | SendMessage json

fun event_prefix :: "assistant_event \<Rightarrow> jsstring" where
  "event_prefix (SendStatus status) = js ''3''"
| "event_prefix (SendThreadId threadId) = js ''4''"
| "event_prefix (SendMessage message) = js ''0''"

fun event_payload :: "assistant_event \<Rightarrow> json" where
  "event_payload (SendStatus status) = status"
| "event_payload (SendThreadId threadId) = JString threadId"
| "event_payload (SendMessage message) = message"

fun event_text :: "assistant_event \<Rightarrow> jsstring" where
  "event_text (SendStatus status) = js ''3: '' @ stringify status @ js ''\<newline>\<newline>''"
| "event_text (SendThreadId threadId) = js ''4: '' @ stringify (JString threadId) @ js ''\<newline>\<newline>''"
| "event_text (SendMessage message) = js ''0: '' @ stringify message @ js ''\<newline>\<newline>''"

definition enqueue_event :: "assistant_event \<Rightarrow> 8 word list" where
  "enqueue_event ev = textEncoder_encode (event_text ev)"

section \<open>The chunk decoder (createChunkDecoder)\<close>

text \<open>
  \<open>new TextDecoder()\<close> called with \<open>{stream: true}\<close>: the UTF-8 decoder of the Encoding
  standard, which keeps an incomplete multi-byte character between calls, replaces an
  ill-formed sequence by U+FFFD and takes the offending byte up again, and drops a
  byte order mark that opens the stream. Called with \<open>stream: true\<close> every time, it is
  never flushed.
\<close>

record text_decoder =
  td_code_point :: "32 word"
  td_bytes_seen :: nat
  td_bytes_needed :: nat
  td_lower :: "8 word"
  td_upper :: "8 word"
  td_bom_seen :: bool

definition new_TextDecoder :: text_decoder where
  "new_TextDecoder =
     \<lparr>td_code_point = 0, td_bytes_seen = 0, td_bytes_needed = 0, td_lower = 0x80, td_upper = 0xBF,
      td_bom_seen = False\<rparr>"

definition utf8_lead :: "text_decoder \<Rightarrow> 8 word \<Rightarrow> 32 word list \<times> text_decoder" where
  "utf8_lead s b =
     (if b \<le> 0x7F then ([ucast b], s)
      else if 0xC2 \<le> b \<and> b \<le> 0xDF
      then ([], s\<lparr>td_bytes_needed := 1, td_code_point := ucast (b AND 0x1F)\<rparr>)
      else if 0xE0 \<le> b \<and> b \<le> 0xEF
      then ([], s\<lparr>td_lower := (if b = 0xE0 then 0xA0 else td_lower s),
                    td_upper := (if b = 0xED then 0x9F else td_upper s),
                    td_bytes_needed := 2, td_code_point := ucast (b AND 0xF)\<rparr>)
      else if 0xF0 \<le> b \<and> b \<le> 0xF4
      then ([], s\<lparr>td_lower := (if b = 0xF0 then 0x90 else td_lower s),
                    td_upper := (if b = 0xF4 then 0x8F else td_upper s),
                    td_bytes_needed := 3, td_code_point := ucast (b AND 0x7)\<rparr>)
      else ([0xFFFD], s))"

definition utf8_byte :: "text_decoder \<Rightarrow> 8 word \<Rightarrow> 32 word list \<times> text_decoder" where
  "utf8_byte s b =
     (if td_bytes_needed s = 0 then utf8_lead s b
      else if \<not> (td_lower s \<le> b \<and> b \<le> td_upper s)
      then
        let s0 = s\<lparr>td_code_point := 0, td_bytes_needed := 0, td_bytes_seen := 0,
                    td_lower := 0x80, td_upper := 0xBF\<rparr>;
            r = utf8_lead s0 b
        in (0xFFFD # fst r, snd r)
      else
        let s1 = s\<lparr>td_lower := 0x80, td_upper := 0xBF,
                    td_code_point := push_bit 6 (td_code_point s) OR ucast (b AND 0x3F),
                    td_bytes_seen := Suc (td_bytes_seen s)\<rparr>
        in if td_bytes_seen s1 \<noteq> td_bytes_needed s1 then ([], s1)
           else ([td_code_point s1],
                 s1\<lparr>td_code_point := 0, td_bytes_needed := 0, td_bytes_seen := 0\<rparr>))"

definition utf16_units :: "32 word \<Rightarrow> jsstring" where
  "utf16_units cp =
     (if cp < 0x10000 then [ucast cp]
      else [0xD800 + ucast (drop_bit 10 (cp - 0x10000)), 0xDC00 + ucast ((cp - 0x10000) AND 0x3FF)])"

fun serialize :: "text_decoder \<Rightarrow> 32 word list \<Rightarrow> jsstring \<times> text_decoder" where
  "serialize s [] = ([], s)"
| "serialize s (cp # cps) =
     (if td_bom_seen s
      then (let r = serialize s cps in (utf16_units cp @ fst r, snd r))
      else (let r = serialize (s\<lparr>td_bom_seen := True\<rparr>) cps
            in ((if cp = 0xFEFF then [] else utf16_units cp) @ fst r, snd r)))"

fun decode_bytes :: "text_decoder \<Rightarrow> 8 word list \<Rightarrow> jsstring \<times> text_decoder" where
  "decode_bytes s [] = ([], s)"
| "decode_bytes s (b # bs) =
     (let r = utf8_byte s b; t = serialize (snd r) (fst r); rest = decode_bytes (snd t) bs
      in (fst t @ fst rest, snd rest))"

definition textDecoder_decode :: "text_decoder \<Rightarrow> 8 word list option \<Rightarrow> jsstring \<times> text_decoder" where
  "textDecoder_decode s chunk = (case chunk of None \<Rightarrow> ([], s) | Some bs \<Rightarrow> decode_bytes s bs)"

text \<open>\<open>split\<close> at the line feeds, and the filter that drops the empty segments.\<close>

fun split_nl :: "jsstring \<Rightarrow> jsstring list" where
  "split_nl [] = [[]]"
| "split_nl (c # cs) =
     (if c = 0x0A then [] # split_nl cs
      else (case split_nl cs of [] \<Rightarrow> [[c]] | l # ls \<Rightarrow> (c # l) # ls))"

definition decoded_lines :: "jsstring \<Rightarrow> jsstring list" where
  "decoded_lines t = filter (\<lambda>line. line \<noteq> []) (split_nl t)"

text \<open>
  \<open>createChunkDecoder(true)\<close>. \<open>parseStreamPart\<close> is imported from a module that is
  not among the sources, so the decoder takes it as a parameter: on a line it throws
  (\<open>Inl\<close>), returns a part, or returns a falsy value (\<open>None\<close>) that
  \<open>filter(Boolean)\<close> drops. \<open>decoded.map(parseStreamPart)\<close> stops at the first line
  that throws. The decoder's state is the \<open>TextDecoder\<close> alone; \<open>feed\<close> calls it on
  one chunk after the other.
\<close>

fun map_parse :: "(jsstring \<Rightarrow> fault + 'e option) \<Rightarrow> jsstring list \<Rightarrow> fault + 'e option list" where
  "map_parse parse [] = Inr []"
| "map_parse parse (l # ls) =
     (case parse l of
        Inl f \<Rightarrow> Inl f
      | Inr r \<Rightarrow> (case map_parse parse ls of Inl f \<Rightarrow> Inl f | Inr rs \<Rightarrow> Inr (r # rs)))"

definition chunk_decoder ::
  "(jsstring \<Rightarrow> fault + 'e option) \<Rightarrow> text_decoder \<Rightarrow> 8 word list option \<Rightarrow> (fault + 'e list) \<times> text_decoder" where
  "chunk_decoder parseStreamPart s chunk =
     (let r = textDecoder_decode s chunk;
          decoded = decoded_lines (fst r)
      in (case map_parse parseStreamPart decoded of
            Inl f \<Rightarrow> (Inl f, snd r)
          | Inr parts \<Rightarrow> (Inr (List.map_filter id parts), snd r)))"

fun feed :: "(jsstring \<Rightarrow> fault + 'e option) \<Rightarrow> text_decoder \<Rightarrow> 8 word list option list \<Rightarrow> (fault + 'e list) list" where
  "feed parseStreamPart s [] = []"
| "feed parseStreamPart s (chunk # chunks) =
     (let r = chunk_decoder parseStreamPart s chunk in fst r # feed parseStreamPart (snd r) chunks)"


text \<open>
  What a reader of the calls' results has in the end: the events of all the calls in
  order, or the first fault thrown.
\<close>

fun collect :: "(fault + 'e list) list \<Rightarrow> fault + 'e list" where
  "collect [] = Inr []"
| "collect (r # rs) =
     (case r of
        Inl f \<Rightarrow> Inl f
      | Inr es \<Rightarrow> (case collect rs of Inl f \<Rightarrow> Inl f | Inr es' \<Rightarrow> Inr (es @ es')))"

text \<open>
  The bytes of a chunk (\<open>undefined\<close> has none), the stream a list of chunks carries, and
  a chunk that is empty or ends with a line feed.
\<close>

definition chunk_bytes :: "8 word list option \<Rightarrow> 8 word list" where
  "chunk_bytes chunk = (case chunk of None \<Rightarrow> [] | Some bs \<Rightarrow> bs)"

definition stream_of :: "8 word list option list \<Rightarrow> 8 word list" where
  "stream_of chunks = concat (map chunk_bytes chunks)"

definition ends_with_newline :: "8 word list option \<Rightarrow> bool" where
  "ends_with_newline chunk = (chunk_bytes chunk = [] \<or> last (chunk_bytes chunk) = 0x0A)"

text \<open>
  Modelled from the spec: \<open>parseStreamPart\<close>, which is not among the sources. The
  characters up to the first colon are looked up in the prefix table \<open>0\<close> to \<open>7\<close>, the
  remainder is parsed as JSON; a line with no colon, an unknown prefix or malformed JSON
  yields no event. \<open>JSON.parse\<close> is a parameter; \<open>parse_json_string\<close> is \<open>JSON.parse\<close>
  on the texts that are one string literal without escapes, and rejects every other
  text.
\<close>

definition stream_prefixes :: "jsstring list" where
  "stream_prefixes = map js [''0'', ''1'', ''2'', ''3'', ''4'', ''5'', ''6'', ''7'']"

definition parseStreamPart :: "(jsstring \<Rightarrow> 'j option) \<Rightarrow> jsstring \<Rightarrow> fault + (jsstring \<times> 'j) option" where
  "parseStreamPart json_parse line =
     (let prefix = takeWhile (\<lambda>c. c \<noteq> 0x3A) line
      in if length prefix = length line then Inr None
         else if prefix \<notin> set stream_prefixes then Inr None
         else (case json_parse (drop (Suc (length prefix)) line) of
                 None \<Rightarrow> Inr None
               | Some v \<Rightarrow> Inr (Some (prefix, v))))"

definition plain_unit :: "16 word \<Rightarrow> bool" where
  "plain_unit c = (0x20 \<le> c \<and> c \<noteq> 0x22 \<and> c \<noteq> 0x5C \<and> \<not> is_surrogate c)"

definition parse_json_string :: "jsstring \<Rightarrow> json option" where
  "parse_json_string t =
     (case t of
        [] \<Rightarrow> None
      | q # r \<Rightarrow>
          if q = 0x22 \<and> r \<noteq> [] \<and> last r = 0x22 \<and> list_all plain_unit (butlast r)
          then Some (JString (butlast r)) else None)"

text \<open>The events of a list of lines, and a text that ends with a line feed.\<close>

definition parse_lines :: "(jsstring \<Rightarrow> fault + 'e option) \<Rightarrow> jsstring list \<Rightarrow> fault + 'e list" where
  "parse_lines parse ls =
     (case map_parse parse ls of Inl f \<Rightarrow> Inl f | Inr parts \<Rightarrow> Inr (List.map_filter id parts))"

definition ends_nl :: "'a::len word list \<Rightarrow> bool" where
  "ends_nl t = (t \<noteq> [] \<and> last t = 0x0A)"

section \<open>The chat hook (useChat)\<close>

text \<open>
  Messages, with the fields the hook reads or writes. A tool invocation has a result
  when the key \<open>result\<close> is present (\<open>'result' in toolInvocation\<close>), whatever its value.
\<close>

datatype role = System | User | Assistant

record toolInvocation =
  ti_toolCallId :: jsstring
  ti_toolName :: jsstring
  ti_args :: jsvalue
  ti_result :: "jsvalue option"

record message =
  msg_id :: jsstring
  msg_role :: role
  msg_content :: jsstring
  msg_ui :: jsvalue
  msg_toolInvocations :: "toolInvocation list option"

text \<open>
  A chat request: its messages, and the rest of it (options, data, functions, tools) as
  one opaque value. A thrown value with its name and whether it is an \<open>Error\<close>.
\<close>

record chatRequest =
  req_messages :: "message list"
  req_options :: jsvalue

record thrown =
  th_name :: jsstring
  th_message :: jsstring
  th_is_Error :: bool

text \<open>
  The hook's options that matter here: the bound on automatic roundtrips (a whole
  number; the default is 0), whether \<open>onError\<close> and \<open>onFinish\<close> are given, and
  \<open>generateId\<close> as a function of the number of ids generated so far.
\<close>

record use_chat =
  uc_maxAutomaticRoundtrips :: int
  uc_onError :: bool
  uc_onFinish :: bool
  uc_generateId :: "nat \<Rightarrow> jsstring"

text \<open>
  The state of one chat. \<open>ch_messages\<close> is the message list in the SWR store (what
  \<open>mutate\<close> writes and the hook returns), \<open>ch_messagesRef\<close> is \<open>messagesRef.current\<close>.
  Abort controllers are numbered; \<open>ch_aborted\<close> lists the aborted ones. The calls of
  \<open>onError\<close> and \<open>onFinish\<close>, the requests handed to the api and the calls of
  \<open>preventDefault\<close> are logged.
\<close>

record chat =
  ch_messages :: "message list"
  ch_messagesRef :: "message list"
  ch_isLoading :: bool
  ch_streamData :: "jsvalue list option"
  ch_error :: "thrown option"
  ch_abortControllerRef :: "nat option"
  ch_aborted :: "nat list"
  ch_controllers :: nat
  ch_input :: jsstring
  ch_extraMetadata :: "(jsstring \<times> jsvalue) list"
  ch_ids :: nat
  ch_onErrorCalls :: "thrown list"
  ch_onFinishCalls :: "message list"
  ch_requests :: "chatRequest list"
  ch_prevented :: nat

text \<open>
  What happens during a request cycle is decided outside the sources: by the server
  action or by \<open>callChatApi\<close> (not among the sources), by React and by the caller. A
  reply lists it. \<open>FromAction\<close> is an api that is a server action, with the rows it
  yields and how it ends: a rejection, or the last row (the one with no \<open>next\<close>).
  \<open>FromChatApi\<close> is a string api, with the callbacks \<open>callChatApi\<close> invokes in order and
  how it ends: it returns, or throws. In between, React may run the effect that copies
  the message list into \<open>messagesRef.current\<close> (\<open>Effect\<close>), and the caller may call
  \<open>stop()\<close> (\<open>Stop\<close>).
\<close>

datatype env_event = Effect | Stop

datatype api_step =
    OnUpdate "message list" "jsvalue list option"
  | RestoreMessagesOnFailure
  | OnFinish message
  | ApiEnv env_event

datatype action_step = Row jsstring jsvalue | ActionEnv env_event

datatype reply =
    FromChatApi "api_step list" "thrown option"
  | FromAction "action_step list" "thrown + jsstring \<times> jsvalue"

text \<open>\<open>mutate(data, false)\<close>, the effect, \<open>stop\<close>, \<open>setMessages\<close> and \<open>setInput\<close>.\<close>

definition mutate :: "message list \<Rightarrow> chat \<Rightarrow> chat" where
  "mutate data st = st\<lparr>ch_messages := data\<rparr>"

definition run_effect :: "chat \<Rightarrow> chat" where
  "run_effect st = st\<lparr>ch_messagesRef := ch_messages st\<rparr>"

definition stop :: "chat \<Rightarrow> chat" where
  "stop st =
     (case ch_abortControllerRef st of
        Some c \<Rightarrow> st\<lparr>ch_aborted := ch_aborted st @ [c], ch_abortControllerRef := None\<rparr>
      | None \<Rightarrow> st)"

definition setMessages :: "message list \<Rightarrow> chat \<Rightarrow> chat" where
  "setMessages messages st = (mutate messages st)\<lparr>ch_messagesRef := messages\<rparr>"

definition setInput :: "jsstring \<Rightarrow> chat \<Rightarrow> chat" where
  "setInput v st = st\<lparr>ch_input := v\<rparr>"

fun env_step :: "env_event \<Rightarrow> chat \<Rightarrow> chat" where
  "env_step Effect st = run_effect st"
| "env_step Stop st = stop st"

text \<open>
  The callbacks \<open>getStreamedResponse\<close> hands to \<open>callChatApi\<close>: \<open>onUpdate\<close>,
  \<open>restoreMessagesOnFailure\<close> and \<open>onFinish\<close>. \<open>or_empty\<close> is \<open>x || []\<close>.
\<close>

definition or_empty :: "'a list option \<Rightarrow> 'a list" where
  "or_empty xs = (case xs of None \<Rightarrow> [] | Some ys \<Rightarrow> ys)"

fun callback :: "use_chat \<Rightarrow> chatRequest \<Rightarrow> message list \<Rightarrow> jsvalue list option \<Rightarrow> api_step \<Rightarrow> chat \<Rightarrow> chat" where
  "callback uc chatRequest previousMessages existingData (OnUpdate merged data) st =
     (mutate (req_messages chatRequest @ merged) st)
       \<lparr>ch_streamData := Some (or_empty existingData @ or_empty data)\<rparr>"
| "callback uc chatRequest previousMessages existingData RestoreMessagesOnFailure st =
     mutate previousMessages st"
| "callback uc chatRequest previousMessages existingData (OnFinish m) st =
     (if uc_onFinish uc then st\<lparr>ch_onFinishCalls := ch_onFinishCalls st @ [m]\<rparr> else st)"
| "callback uc chatRequest previousMessages existingData (ApiEnv e) st = env_step e st"

fun callbacks :: "use_chat \<Rightarrow> chatRequest \<Rightarrow> message list \<Rightarrow> jsvalue list option \<Rightarrow> api_step list \<Rightarrow> chat \<Rightarrow> chat" where
  "callbacks uc chatRequest previousMessages existingData [] st = st"
| "callbacks uc chatRequest previousMessages existingData (x # xs) st =
     callbacks uc chatRequest previousMessages existingData xs
       (callback uc chatRequest previousMessages existingData x st)"

text \<open>\<open>readRow\<close> of the server-action branch: one row sets content and ui and is shown.\<close>

definition row_read :: "chatRequest \<Rightarrow> jsstring \<Rightarrow> jsvalue \<Rightarrow> message \<times> chat \<Rightarrow> message \<times> chat" where
  "row_read chatRequest content ui s =
     (let responseMessage = (fst s)\<lparr>msg_content := content, msg_ui := ui\<rparr>
      in (responseMessage, mutate (req_messages chatRequest @ [responseMessage]) (snd s)))"

fun readRow :: "chatRequest \<Rightarrow> action_step list \<Rightarrow> message \<times> chat \<Rightarrow> message \<times> chat" where
  "readRow chatRequest [] s = s"
| "readRow chatRequest (Row content ui # rows) s = readRow chatRequest rows (row_read chatRequest content ui s)"
| "readRow chatRequest (ActionEnv e # rows) s = readRow chatRequest rows (fst s, env_step e (snd s))"

text \<open>
  \<open>getStreamedResponse\<close>: the snapshot \<open>previousMessages\<close>, the optimistic update, then
  the branch of the api. The server-action branch restores the snapshot when the action
  rejects and throws the error on; the other branch leaves it to \<open>callChatApi\<close>.
\<close>

definition getStreamedResponse :: "use_chat \<Rightarrow> chatRequest \<Rightarrow> reply \<Rightarrow> chat \<Rightarrow> (thrown + unit) \<times> chat" where
  "getStreamedResponse uc chatRequest reply st =
     (let previousMessages = ch_messagesRef st;
          existingData = ch_streamData st;
          st1 = (mutate (req_messages chatRequest) st)\<lparr>ch_requests := ch_requests st @ [chatRequest]\<rparr>
      in (case reply of
            FromAction rows final \<Rightarrow>
              let replyId = uc_generateId uc (ch_ids st1);
                  st2 = st1\<lparr>ch_ids := Suc (ch_ids st1)\<rparr>;
                  responseMessage = \<lparr>msg_id = replyId, msg_role = Assistant, msg_content = [],
                                     msg_ui = Undefined, msg_toolInvocations = None\<rparr>;
                  s = readRow chatRequest rows (responseMessage, st2)
              in (case final of
                    Inl e \<Rightarrow> (Inl e, mutate previousMessages (snd s))
                  | Inr last_row \<Rightarrow>
                      let s' = row_read chatRequest (fst last_row) (snd last_row) s
                      in (Inr (),
                          if uc_onFinish uc
                          then (snd s')\<lparr>ch_onFinishCalls := ch_onFinishCalls (snd s') @ [fst s']\<rparr>
                          else snd s'))
          | FromChatApi steps ending \<Rightarrow>
              let st2 = callbacks uc chatRequest previousMessages existingData steps st1
              in (case ending of None \<Rightarrow> (Inr (), st2) | Some e \<Rightarrow> (Inl e, st2))))"

text \<open>
  The \<open>try\<close>, \<open>catch\<close> and \<open>finally\<close> of \<open>triggerRequest\<close>. \<open>processChatStream\<close> is not
  among the sources; it is taken to call \<open>getStreamedResponse\<close> once and to pass on what
  that returns or throws. \<open>Aborted\<close> is the \<open>return null\<close> of the \<open>AbortError\<close> branch;
  after \<open>Succeeded\<close> and \<open>Failed\<close> the function goes on to the auto-submit check.
\<close>

datatype cycle_end = Succeeded | Failed | Aborted

definition request_cycle :: "use_chat \<Rightarrow> chatRequest \<Rightarrow> reply \<Rightarrow> chat \<Rightarrow> cycle_end \<times> chat" where
  "request_cycle uc chatRequest reply st =
     (let st1 = st\<lparr>ch_isLoading := True, ch_error := None\<rparr>;
          st2 = st1\<lparr>ch_controllers := Suc (ch_controllers st1),
                    ch_abortControllerRef := Some (ch_controllers st1)\<rparr>;
          r = getStreamedResponse uc chatRequest reply st2
      in (case fst r of
            Inr u \<Rightarrow> (Succeeded, (snd r)\<lparr>ch_abortControllerRef := None, ch_isLoading := False\<rparr>)
          | Inl err \<Rightarrow>
              if th_name err = js ''AbortError''
              then (Aborted, (snd r)\<lparr>ch_abortControllerRef := None, ch_isLoading := False\<rparr>)
              else
                let st3 = (if uc_onError uc \<and> th_is_Error err
                           then (snd r)\<lparr>ch_onErrorCalls := ch_onErrorCalls (snd r) @ [err]\<rparr>
                           else snd r)
                in (Failed, st3\<lparr>ch_error := Some err, ch_isLoading := False\<rparr>)))"

text \<open>The auto-submit check at the end of \<open>triggerRequest\<close>, and its two helpers.\<close>

definition isAssistantMessageWithCompletedToolCalls :: "message \<Rightarrow> bool" where
  "isAssistantMessageWithCompletedToolCalls message =
     (msg_role message = Assistant \<and>
      (case msg_toolInvocations message of
         None \<Rightarrow> False
       | Some toolInvocations \<Rightarrow>
           length toolInvocations > 0 \<and>
           list_all (\<lambda>toolInvocation. ti_result toolInvocation \<noteq> None) toolInvocations))"

fun trailing_loop :: "message list \<Rightarrow> nat \<Rightarrow> nat" where
  "trailing_loop [] count = count"
| "trailing_loop (m # ms) count =
     (if msg_role m = Assistant then trailing_loop ms (Suc count) else count)"

definition countTrailingAssistantMessages :: "message list \<Rightarrow> nat" where
  "countTrailingAssistantMessages messages = trailing_loop (rev messages) 0"

definition autoSubmit :: "use_chat \<Rightarrow> message list \<Rightarrow> bool" where
  "autoSubmit uc messages =
     (messages \<noteq> [] \<and>
      uc_maxAutomaticRoundtrips uc > 0 \<and>
      isAssistantMessageWithCompletedToolCalls (last messages) \<and>
      int (countTrailingAssistantMessages messages) \<le> uc_maxAutomaticRoundtrips uc)"

text \<open>
  \<open>triggerRequest\<close>, with one reply for each request it dispatches. It may dispatch
  without end; \<open>None\<close> says that it went on to dispatch a request the list has no reply
  for.
\<close>

fun triggerRequest :: "use_chat \<Rightarrow> reply list \<Rightarrow> chatRequest \<Rightarrow> chat \<Rightarrow> chat option" where
  "triggerRequest uc [] chatRequest st = None"
| "triggerRequest uc (reply # replies) chatRequest st =
     (let r = request_cycle uc chatRequest reply st
      in if fst r = Aborted then Some (snd r)
         else
           let messages = ch_messagesRef (snd r)
           in if autoSubmit uc messages
              then triggerRequest uc replies \<lparr>req_messages = messages, req_options = Undefined\<rparr> (snd r)
              else Some (snd r))"

text \<open>
  \<open>append\<close>, \<open>reload\<close>, \<open>handleSubmit\<close> and \<open>experimental_addToolResult\<close>. Each of
  them calls \<open>triggerRequest\<close> in the same synchronous run, so no effect runs between
  what it does first and the snapshot \<open>getStreamedResponse\<close> takes. An id that is
  missing or empty is falsy; \<open>msg_id = []\<close> stands for both.
  \<open>experimental_addToolResult\<close> reads \<open>role\<close> of \<open>undefined\<close> when there is no message,
  which throws a \<open>TypeError\<close>.
\<close>

definition append_message :: "use_chat \<Rightarrow> reply list \<Rightarrow> message \<Rightarrow> jsvalue \<Rightarrow> chat \<Rightarrow> chat option" where
  "append_message uc replies message options st =
     (let st1 = (if msg_id message = [] then st\<lparr>ch_ids := Suc (ch_ids st)\<rparr> else st);
          message1 = (if msg_id message = [] then message\<lparr>msg_id := uc_generateId uc (ch_ids st)\<rparr>
                      else message)
      in triggerRequest uc replies
           \<lparr>req_messages = ch_messagesRef st1 @ [message1], req_options = options\<rparr> st1)"

definition reload :: "use_chat \<Rightarrow> reply list \<Rightarrow> jsvalue \<Rightarrow> chat \<Rightarrow> chat option" where
  "reload uc replies options st =
     (if length (ch_messagesRef st) = 0 then Some st
      else if msg_role (last (ch_messagesRef st)) = Assistant
      then triggerRequest uc replies
             \<lparr>req_messages = butlast (ch_messagesRef st), req_options = options\<rparr> st
      else triggerRequest uc replies
             \<lparr>req_messages = ch_messagesRef st, req_options = options\<rparr> st)"

definition spread :: "(jsstring \<times> jsvalue) list \<Rightarrow> (jsstring \<times> jsvalue) list \<Rightarrow> (jsstring \<times> jsvalue) list" where
  "spread a b = filter (\<lambda>kv. map_of b (fst kv) = None) a @ b"

definition handleSubmit ::
  "use_chat \<Rightarrow> reply list \<Rightarrow> jsvalue \<Rightarrow> (jsstring \<times> jsvalue) list option \<Rightarrow> chat \<Rightarrow> chat option" where
  "handleSubmit uc replies options metadata st =
     (let st1 = (case metadata of
                   None \<Rightarrow> st
                 | Some m \<Rightarrow> st\<lparr>ch_extraMetadata := spread (ch_extraMetadata st) m\<rparr>);
          st2 = st1\<lparr>ch_prevented := Suc (ch_prevented st1)\<rparr>
      in if ch_input st2 = [] then Some st2
         else
           (case append_message uc replies
                   \<lparr>msg_id = [], msg_role = User, msg_content = ch_input st2, msg_ui = Undefined,
                     msg_toolInvocations = None\<rparr> options st2 of
              None \<Rightarrow> None
            | Some st3 \<Rightarrow> Some (setInput [] st3)))"

definition attach_result :: "jsstring \<Rightarrow> jsvalue \<Rightarrow> message list \<Rightarrow> message list" where
  "attach_result toolCallId result arr =
     map (\<lambda>im.
            if fst im = length arr - 1 \<and> msg_role (snd im) = Assistant \<and> msg_toolInvocations (snd im) \<noteq> None
            then (snd im)\<lparr>msg_toolInvocations :=
                   Some (map (\<lambda>toolInvocation.
                                if ti_toolCallId toolInvocation = toolCallId
                                then toolInvocation\<lparr>ti_result := Some result\<rparr>
                                else toolInvocation)
                           (or_empty (msg_toolInvocations (snd im))))\<rparr>
            else snd im)
         (List.enumerate 0 arr)"

definition experimental_addToolResult ::
  "use_chat \<Rightarrow> reply list \<Rightarrow> jsstring \<Rightarrow> jsvalue \<Rightarrow> chat \<Rightarrow> thrown \<times> chat + chat option" where
  "experimental_addToolResult uc replies toolCallId result st =
     (let updatedMessages = attach_result toolCallId result (ch_messagesRef st);
          st1 = mutate updatedMessages st
      in if updatedMessages = []
         then Inl (\<lparr>th_name = js ''TypeError'', th_message = [], th_is_Error = True\<rparr>, st1)
         else if isAssistantMessageWithCompletedToolCalls (last updatedMessages)
         then Inr (triggerRequest uc replies \<lparr>req_messages = updatedMessages, req_options = Undefined\<rparr> st1)
         else Inr (Some st1))"

text \<open>A step of a reply that is no callback of \<open>callChatApi\<close>.\<close>

fun is_env_step :: "api_step \<Rightarrow> bool" where
  "is_env_step (ApiEnv e) = True"
| "is_env_step x = False"

text \<open>A small conversation, for the worked examples.\<close>

definition demo_options :: use_chat where
  "demo_options = \<lparr>uc_maxAutomaticRoundtrips = 1, uc_onError = True, uc_onFinish = False,
                    uc_generateId = (\<lambda>n. js ''id'' @ replicate n 0x27)\<rparr>"

definition demo_user :: message where
  "demo_user = \<lparr>msg_id = js ''u1'', msg_role = User, msg_content = js ''look it up'',
                 msg_ui = Undefined, msg_toolInvocations = None\<rparr>"

definition demo_call :: message where
  "demo_call = \<lparr>msg_id = js ''a1'', msg_role = Assistant, msg_content = [], msg_ui = Undefined,
                 msg_toolInvocations =
                   Some [\<lparr>ti_toolCallId = js ''t1'', ti_toolName = js ''lookup'', ti_args = Obj 1,
                          ti_result = None\<rparr>]\<rparr>"

definition demo_answer :: "string \<Rightarrow> message" where
  "demo_answer s = \<lparr>msg_id = js ''a2'', msg_role = Assistant, msg_content = js s, msg_ui = Undefined,
                     msg_toolInvocations = None\<rparr>"

definition demo_chat :: "message list \<Rightarrow> chat" where
  "demo_chat ms =
     \<lparr>ch_messages = ms, ch_messagesRef = ms, ch_isLoading = False, ch_streamData = None,
      ch_error = None, ch_abortControllerRef = None, ch_aborted = [], ch_controllers = 0,
      ch_input = [], ch_extraMetadata = [], ch_ids = 0, ch_onErrorCalls = [], ch_onFinishCalls = [],
      ch_requests = [], ch_prevented = 0\<rparr>"

definition demo_error :: "string \<Rightarrow> thrown" where
  "demo_error n = \<lparr>th_name = js n, th_message = js ''connection lost'', th_is_Error = True\<rparr>"

definition demo_called :: message where
  "demo_called = \<lparr>msg_id = js ''a1'', msg_role = Assistant, msg_content = [], msg_ui = Undefined,
                 msg_toolInvocations =
                   Some [\<lparr>ti_toolCallId = js ''t1'', ti_toolName = js ''lookup'', ti_args = Obj 1,
                          ti_result = Some (Str (js ''sunny''))\<rparr>]\<rparr>"

definition demo_request :: chatRequest where
  "demo_request = \<lparr>req_messages = [demo_user], req_options = Undefined\<rparr>"

section \<open>Patches\<close>

lemma startsWith_append: "startsWith b a \<Longrightarrow> a @ slice_from b (length a) = b"
  unfolding startsWith_def slice_from_def
  by (metis append_take_drop_id)

lemma patch_of_update_eq:
  "patch_of_update c a b = (if startsWith b a then Some (0, slice_from b (length a)) else None)"
  by (simp add: patch_of_update_def updateValueStates_def)

text \<open>
  C1, as the code has it: for \<open>b\<close> starting with \<open>a\<close> the patch is \<open>[0, b.slice(a.length)]\<close>;
  its first component is the constant 0. Appending the patch's suffix to \<open>a\<close> gives
  exactly \<open>b\<close>; the rule \<open>local.slice(0, offset) + suffix\<close>, read with the first component
  as the offset, gives only the appended suffix.
\<close>

theorem patch_appends_suffix:
  assumes "startsWith b a"
  shows "patch_of_update c a b = Some (0, slice_from b (length a))
       \<and> a @ snd (the (patch_of_update c a b)) = b
       \<and> patch_apply a (the (patch_of_update c a b)) = slice_from b (length a)"
  using assms
  by (simp add: patch_of_update_eq startsWith_append patch_apply_def)

theorem patch_appends_suffix_witness:
  "startsWith (js ''Hello'') (js ''Hel'')
   \<and> patch_of_update (createStreamableValue (Str (js ''Hel'')) False) (js ''Hel'') (js ''Hello'')
       = Some (0, js ''lo'')
   \<and> js ''Hel'' @ snd (the (patch_of_update (createStreamableValue (Str (js ''Hel'')) False)
        (js ''Hel'') (js ''Hello''))) = js ''Hello''
   \<and> patch_apply (js ''Hel'') (the (patch_of_update (createStreamableValue (Str (js ''Hel'')) False)
        (js ''Hel'') (js ''Hello''))) = js ''lo''"
proof -
  have h: "startsWith (js ''Hello'') (js ''Hel'')"
    by (simp add: startsWith_def js_def)
  have s: "slice_from (js ''Hello'') (length (js ''Hel'')) = js ''lo''"
    by (simp add: slice_from_def js_def)
  show ?thesis
    using h patch_appends_suffix [OF h, of "createStreamableValue (Str (js ''Hel'')) False"]
    unfolding s by blast
qed

text \<open>
  C1 as stated fails: for \<open>a = "Hel"\<close> and \<open>b = "Hello"\<close> the patch is \<open>[0, "lo"]\<close>, and
  \<open>local.slice(0, 0) + "lo"\<close> is \<open>"lo"\<close>, not \<open>"Hello"\<close>.
\<close>

theorem patch_slice_rule_counterexample:
  "startsWith (js ''Hello'') (js ''Hel'')
   \<and> patch_apply (js ''Hel'')
        (the (patch_of_update (createStreamableValue (Str (js ''Hel'')) False) (js ''Hel'') (js ''Hello'')))
       \<noteq> js ''Hello''"
  by (simp add: patch_of_update_eq startsWith_def slice_from_def patch_apply_def js_def)

section \<open>Cells: closing, publishing, finishing\<close>

lemma ui_perform_closed: "ui_closed c \<Longrightarrow> ui_perform x c = Inl (ui_fault x)"
  by (cases x) (simp_all add: ui_update_def ui_append_def ui_error_def ui_done_def ui_assertStream_def ui_fault_def)

lemma ui_faults_closed: "ui_closed c \<Longrightarrow> ui_faults xs c = map (\<lambda>x. Some (ui_fault x)) xs"
  by (induction xs) (simp_all add: ui_perform_closed)

lemma ui_after_closed: "ui_closed c \<Longrightarrow> ui_after xs c = c"
  by (induction xs) (simp_all add: ui_perform_closed)

lemma ui_done_closes: "ui_closed (ui_after [UiDone a] c)"
  by (cases a) (simp_all add: ui_done_def ui_assertStream_def Let_def)

lemma ui_error_closes: "ui_closed (ui_after [UiError e] c)"
  by (simp add: ui_error_def ui_assertStream_def)

lemma vc_perform_closed: "vc_closed c \<Longrightarrow> vc_perform x c = Inl (vc_fault x)"
  by (cases x) (simp_all add: vc_update_def vc_error_def vc_done_def vc_assertStream_def vc_fault_def)

lemma vc_faults_closed: "vc_closed c \<Longrightarrow> vc_faults xs c = map (\<lambda>x. Some (vc_fault x)) xs"
  by (induction xs) (simp_all add: vc_perform_closed)

lemma vc_after_closed: "vc_closed c \<Longrightarrow> vc_after xs c = c"
  by (induction xs) (simp_all add: vc_perform_closed)

lemma updateValueStates_fields [simp]:
  "vc_closed (updateValueStates v c) = vc_closed c"
  "vc_resolvable (updateValueStates v c) = vc_resolvable c"
  "vc_currentError (updateValueStates v c) = vc_currentError c"
  "vc_currentPromise (updateValueStates v c) = vc_currentPromise c"
  "vc_promises (updateValueStates v c) = vc_promises c"
  "vc_fresh (updateValueStates v c) = vc_fresh c"
  "vc_timer (updateValueStates v c) = vc_timer c"
  "vc_currentValue (updateValueStates v c) = v"
  by (simp_all add: updateValueStates_def Let_def split: jsvalue.splits)

lemma vc_done_closes: "vc_closed (vc_after [VcDone a] c)"
  by (cases a) (simp_all add: vc_done_def vc_assertStream_def Let_def)

lemma vc_error_closes: "vc_closed (vc_after [VcError e] c)"
  by (simp add: vc_error_def vc_assertStream_def)


lemma settle_open: "map_of ps p = None \<Longrightarrow> settle p s ps = ps @ [(p, s)]"
  by (simp add: settle_def)

lemma map_of_fresh: "list_all (\<lambda>e. fst e < (n::nat)) ps \<Longrightarrow> n \<le> p \<Longrightarrow> map_of ps p = None"
  by (fastforce simp: map_of_eq_None_iff list_all_iff)

lemma list_all_mono_Suc: "list_all (\<lambda>e. fst e < (n::nat)) ps \<Longrightarrow> list_all (\<lambda>e. fst e < Suc n) ps"
  by (induction ps) auto

lemma settle_keys: "list_all (\<lambda>e. fst e < n) ps \<Longrightarrow> p < n \<Longrightarrow> list_all (\<lambda>e. fst e < n) (settle p s ps)"
  by (simp add: settle_def)

lemma map_of_settle_other: "p \<noteq> q \<Longrightarrow> map_of (settle p s ps) q = map_of ps q"
  by (simp add: settle_def map_add_def split: option.splits)

lemma ui_inv_create: "ui_inv (createStreamableUI v dev)"
  by (simp add: ui_inv_def createStreamableUI_def)

lemma ui_inv_perform: "ui_inv c \<Longrightarrow> ui_perform x c = Inr c' \<Longrightarrow> ui_inv c'"
proof (cases x)
  case (UiUpdate v)
  assume i: "ui_inv c" and p: "ui_perform x c = Inr c'"
  show ?thesis
  proof (cases "v = ui_currentValue c")
    case True
    with i p UiUpdate show ?thesis
      by (auto simp: ui_update_def ui_assertStream_def ui_inv_def split: if_splits)
  next
    case False
    with i p UiUpdate show ?thesis
      by (auto simp: ui_update_def ui_assertStream_def ui_inv_def Let_def
          settle_keys list_all_mono_Suc map_of_settle_other map_of_fresh split: if_splits)
  qed
next
  case (UiAppend v)
  assume i: "ui_inv c" and p: "ui_perform x c = Inr c'"
  with UiAppend show ?thesis
      by (auto simp: ui_append_def ui_assertStream_def ui_inv_def Let_def
          settle_keys list_all_mono_Suc map_of_settle_other map_of_fresh split: if_splits)
next
  case (UiError e)
  assume i: "ui_inv c" and p: "ui_perform x c = Inr c'"
  with UiError show ?thesis
      by (auto simp: ui_error_def ui_assertStream_def ui_inv_def settle_keys split: if_splits)
next
  case (UiDone a)
  assume i: "ui_inv c" and p: "ui_perform x c = Inr c'"
  with UiDone show ?thesis
      by (cases a) (auto simp: ui_done_def ui_assertStream_def ui_inv_def Let_def settle_keys split: if_splits)
qed

lemma ui_inv_after: "ui_inv c \<Longrightarrow> ui_inv (ui_after xs c)"
proof (induction xs arbitrary: c)
  case Nil
  then show ?case by simp
next
  case (Cons x xs)
  then show ?case
    by (cases "ui_perform x c") (auto dest: ui_inv_perform)
qed

lemma ui_open_tail:
  assumes "c = ui_after xs (createStreamableUI v0 dev)" and "\<not> ui_closed c"
  shows "map_of (ui_promises c) (ui_resolve c) = None"
    and "list_all (\<lambda>e. fst e < ui_fresh c) (ui_promises c)" and "ui_resolve c < ui_fresh c"
  using ui_inv_after [OF ui_inv_create, of xs v0 dev] assms
  by (auto simp: ui_inv_def)

lemma vc_inv_create: "vc_inv (createStreamableValue v dev)"
  by (simp add: vc_inv_def createStreamableValue_def)

lemma vc_inv_perform: "vc_inv c \<Longrightarrow> vc_perform x c = Inr c' \<Longrightarrow> vc_inv c'"
proof (cases x)
  case (VcUpdate v)
  assume i: "vc_inv c" and p: "vc_perform x c = Inr c'"
  with VcUpdate show ?thesis
      by (auto simp: vc_update_def vc_assertStream_def vc_inv_def Let_def
          settle_keys list_all_mono_Suc map_of_settle_other map_of_fresh split: if_splits)
next
  case (VcError e)
  assume i: "vc_inv c" and p: "vc_perform x c = Inr c'"
  with VcError show ?thesis
      by (auto simp: vc_error_def vc_assertStream_def vc_inv_def settle_keys split: if_splits)
next
  case (VcDone a)
  assume i: "vc_inv c" and p: "vc_perform x c = Inr c'"
  with VcDone show ?thesis
      by (cases a) (auto simp: vc_done_def vc_assertStream_def vc_inv_def Let_def settle_keys split: if_splits)
qed

lemma vc_inv_after: "vc_inv c \<Longrightarrow> vc_inv (vc_after xs c)"
proof (induction xs arbitrary: c)
  case Nil
  then show ?case by simp
next
  case (Cons x xs)
  then show ?case
    by (cases "vc_perform x c") (auto dest: vc_inv_perform)
qed

lemma vc_open_tail:
  assumes "d = vc_after ys (createStreamableValue w0 dev)" and "\<not> vc_closed d"
  shows "map_of (vc_promises d) (vc_resolvable d) = None"
    and "list_all (\<lambda>e. fst e < vc_fresh d) (vc_promises d)" and "vc_resolvable d < vc_fresh d"
    and "vc_currentError d = Undefined"
  using vc_inv_after [OF vc_inv_create, of ys w0 dev] assms
  by (auto simp: vc_inv_def)




lemma ui_done_open:
  assumes "c = ui_after xs (createStreamableUI v0 dev)" and "\<not> ui_closed c"
  shows "ui_done a c =
     Inr (c\<lparr>ui_closed := True, ui_timer := clearWarning (ui_timer c),
            ui_promises := ui_promises c @
              [(ui_resolve c, Resolved \<lparr>row_value = (case a of Some v \<Rightarrow> v | None \<Rightarrow> ui_currentValue c),
                                        row_done = True, row_append = False, row_next = None\<rparr>)]\<rparr>)"
  using ui_open_tail [OF assms] assms(2)
  by (cases a) (simp_all add: ui_done_def ui_assertStream_def settle_open Let_def)

lemma vc_done_none_open:
  assumes "d = vc_after ys (createStreamableValue w0 dev)" and "\<not> vc_closed d"
  shows "vc_done None d =
     Inr (d\<lparr>vc_timer := clearWarning (vc_timer d), vc_closed := True, vc_currentPromise := None,
            vc_promises := vc_promises d @ [(vc_resolvable d, Resolved empty_wrapped)]\<rparr>)"
  using vc_open_tail [OF assms] assms(2)
  by (simp add: vc_done_def vc_assertStream_def settle_open Let_def)

lemma vc_done_some_open:
  assumes "d = vc_after ys (createStreamableValue w0 dev)" and "\<not> vc_closed d"
  shows "\<exists>d'. vc_done (Some v) d = Inr d' \<and> vc_closed d' \<and> vc_currentValue d' = v
       \<and> vc_promises d' = vc_promises d @
            [(vc_resolvable d, Resolved
               (case v of
                  Str s \<Rightarrow>
                    (case vc_currentValue d of
                       Str t \<Rightarrow>
                         if startsWith s t
                         then empty_wrapped\<lparr>w_diff := Some (0, slice_from s (length t))\<rparr>
                         else empty_wrapped\<lparr>w_curr := Some v\<rparr>
                     | _ \<Rightarrow> empty_wrapped\<lparr>w_curr := Some v\<rparr>)
                | _ \<Rightarrow> empty_wrapped\<lparr>w_curr := Some v\<rparr>))]"
proof -
  let ?c1 = "d\<lparr>vc_timer := clearWarning (vc_timer d), vc_closed := True, vc_currentPromise := None\<rparr>"
  have w: "createWrapped False (updateValueStates v ?c1) =
               (case v of
                  Str s \<Rightarrow>
                    (case vc_currentValue d of
                       Str t \<Rightarrow>
                         if startsWith s t
                         then empty_wrapped\<lparr>w_diff := Some (0, slice_from s (length t))\<rparr>
                         else empty_wrapped\<lparr>w_curr := Some v\<rparr>
                     | _ \<Rightarrow> empty_wrapped\<lparr>w_curr := Some v\<rparr>)
                | _ \<Rightarrow> empty_wrapped\<lparr>w_curr := Some v\<rparr>)"
    using vc_open_tail(4) [OF assms]
    by (cases v; cases "vc_currentValue d")
       (simp_all add: createWrapped_def updateValueStates_def)
  show ?thesis
    using vc_open_tail [OF assms] assms(2)
    by (simp add: vc_done_def vc_assertStream_def settle_open Let_def w)
qed

text \<open>
  C5: once \<open>done()\<close> or \<open>error()\<close> has been called on a cell (whether that call went
  through or was itself refused), every later call of \<open>update\<close>, \<open>append\<close>, \<open>error\<close>
  or \<open>done\<close> throws the cell's "stream is already closed" error; none is silently
  ignored. The value cell has no \<open>append\<close>.
\<close>

theorem closed_cell_calls_throw:
  "ui_faults xs (ui_after [UiDone a] c) = map (\<lambda>x. Some (ui_fault x)) xs
 \<and> ui_faults xs (ui_after [UiError e] c) = map (\<lambda>x. Some (ui_fault x)) xs
 \<and> vc_faults ys (vc_after [VcDone a] d) = map (\<lambda>y. Some (vc_fault y)) ys
 \<and> vc_faults ys (vc_after [VcError e] d) = map (\<lambda>y. Some (vc_fault y)) ys"
  using ui_faults_closed [OF ui_done_closes] ui_faults_closed [OF ui_error_closes]
    vc_faults_closed [OF vc_done_closes] vc_faults_closed [OF vc_error_closes]
  by blast

theorem closed_cell_calls_throw_witness:
  "ui_faults [UiUpdate (Str (js ''x'')), UiAppend (Obj 1), UiError (Obj 2), UiDone None]
      (ui_after [UiDone None] (createStreamableUI Undefined True))
     = [Some (Fault (js ''.update(): UI stream is already closed.'')),
        Some (Fault (js ''.append(): UI stream is already closed.'')),
        Some (Fault (js ''.error(): UI stream is already closed.'')),
        Some (Fault (js ''.done(): UI stream is already closed.''))]
   \<and> vc_faults [VcUpdate (Str (js ''x'')), VcError (Obj 2), VcDone None]
      (vc_after [VcError (Obj 7)] (createStreamableValue Undefined True))
     = [Some (Fault (js ''.update(): Value stream is already closed.'')),
        Some (Fault (js ''.error(): Value stream is already closed.'')),
        Some (Fault (js ''.done(): Value stream is already closed.''))]"
  using closed_cell_calls_throw
    [of "[UiUpdate (Str (js ''x'')), UiAppend (Obj 1), UiError (Obj 2), UiDone None]" None
        "createStreamableUI Undefined True" "Obj 7"
        "[VcUpdate (Str (js ''x'')), VcError (Obj 2), VcDone None]"
        "createStreamableValue Undefined True"]
  by (simp add: ui_fault_def vc_fault_def js_def)



text \<open>
  C8, as the code has it. \<open>done\<close> on an open cell closes it and settles the open tail
  with a revision that has no \<open>next\<close>. The UI cell's revision is
  \<open>{value: finalValue, done: true}\<close>, or \<open>{value: currentValue, done: true}\<close> for the call
  with no argument. The value cell's revision has no \<open>value\<close> and no \<open>done\<close> field:
  \<open>done(v)\<close> settles the tail with \<open>{curr: v}\<close>, or with \<open>{diff: [0, suffix]}\<close> when \<open>v\<close>
  and the current value are strings and \<open>v\<close> starts with the current value; \<open>done()\<close>
  settles it with the empty record \<open>{}\<close>.
\<close>

theorem done_settles_open_tail:
  assumes "c = ui_after xs (createStreamableUI v0 dev)" and "\<not> ui_closed c"
    and "d = vc_after ys (createStreamableValue w0 dev')" and "\<not> vc_closed d"
  shows "ui_done a c =
           Inr (c\<lparr>ui_closed := True, ui_timer := clearWarning (ui_timer c),
                  ui_promises := ui_promises c @
                    [(ui_resolve c, Resolved \<lparr>row_value = (case a of Some v \<Rightarrow> v | None \<Rightarrow> ui_currentValue c),
                                              row_done = True, row_append = False, row_next = None\<rparr>)]\<rparr>)
       \<and> vc_done None d =
           Inr (d\<lparr>vc_timer := clearWarning (vc_timer d), vc_closed := True, vc_currentPromise := None,
                  vc_promises := vc_promises d @ [(vc_resolvable d, Resolved empty_wrapped)]\<rparr>)
       \<and> (\<exists>d'. vc_done (Some v) d = Inr d' \<and> vc_closed d' \<and> vc_currentValue d' = v
             \<and> vc_promises d' = vc_promises d @
                  [(vc_resolvable d, Resolved
                     (case v of
                        Str s \<Rightarrow>
                          (case vc_currentValue d of
                             Str t \<Rightarrow>
                               if startsWith s t
                               then empty_wrapped\<lparr>w_diff := Some (0, slice_from s (length t))\<rparr>
                               else empty_wrapped\<lparr>w_curr := Some v\<rparr>
                           | _ \<Rightarrow> empty_wrapped\<lparr>w_curr := Some v\<rparr>)
                      | _ \<Rightarrow> empty_wrapped\<lparr>w_curr := Some v\<rparr>))])"
  using ui_done_open [OF assms(1,2), of a] vc_done_none_open [OF assms(3,4)]
    vc_done_some_open [OF assms(3,4), of v]
  by blast

theorem done_settles_open_tail_witness:
  "\<not> ui_closed (createStreamableUI (Obj 1) False)
   \<and> \<not> vc_closed (createStreamableValue (Str (js ''a'')) False)
   \<and> ui_done (Some (Obj 2)) (createStreamableUI (Obj 1) False) =
       Inr \<lparr>ui_currentValue = Obj 1, ui_closed = True, ui_resolve = 0,
            ui_promises = [(0, Resolved \<lparr>row_value = Obj 2, row_done = True, row_append = False, row_next = None\<rparr>)],
            ui_fresh = 1, ui_timer = new_timer False\<rparr>
   \<and> (\<exists>d'. vc_done (Some (Str (js ''ab''))) (createStreamableValue (Str (js ''a'')) False) = Inr d'
         \<and> vc_promises d' = [(0, Resolved (empty_wrapped\<lparr>w_diff := Some (0, js ''b'')\<rparr>))])"
proof -
  have hc: "\<not> ui_closed (createStreamableUI (Obj 1) False)"
    by (simp add: createStreamableUI_def)
  have hd: "\<not> vc_closed (createStreamableValue (Str (js ''a'')) False)"
    by (simp add: createStreamableValue_def)
  have e: "createStreamableUI (Obj 1) False = ui_after [] (createStreamableUI (Obj 1) False)"
      "createStreamableValue (Str (js ''a'')) False = vc_after [] (createStreamableValue (Str (js ''a'')) False)"
    by simp_all
  show ?thesis
    using done_settles_open_tail [OF e(1) hc e(2) hd, of "Some (Obj 2)" "Str (js ''ab'')"]
    by (simp add: ui_done_def ui_assertStream_def vc_done_def vc_assertStream_def
        createStreamableUI_def createStreamableValue_def warnUnclosedStream_def settle_def
        new_timer_def clearWarning_def startsWith_def slice_from_def js_def Let_def
        updateValueStates_def createWrapped_def)
qed

text \<open>
  C8 as stated fails for the value cell: \<open>done()\<close> with no argument on a cell holding
  \<open>"a"\<close> settles the tail (promise 0) with \<open>{}\<close>, which carries neither the last known
  value nor a \<open>done\<close> flag.
\<close>

theorem value_done_counterexample:
  "(case vc_done None (createStreamableValue (Str (js ''a'')) False) of
      Inl f \<Rightarrow> False
    | Inr d \<Rightarrow> vc_currentValue d = Str (js ''a'')
        \<and> map_of (vc_promises d) 0 =
            Some (Resolved \<lparr>w_curr = None, w_diff = None, w_error = None, w_next = None, w_type = False\<rparr>))"
  by (simp add: vc_done_def vc_assertStream_def createStreamableValue_def settle_def empty_wrapped_def)

section \<open>The chunk decoder: lines and chunk boundaries\<close>

lemma split_nl_not_Nil: "split_nl t \<noteq> []"
  by (induction t) (auto split: list.splits)

lemma split_nl_append_newline: "split_nl (xs @ 0x0A # ys) = split_nl xs @ split_nl ys"
proof (induction xs)
  case Nil
  show ?case by simp
next
  case (Cons c xs)
  obtain l ls where s: "split_nl xs = l # ls"
    using split_nl_not_Nil [of xs] by (cases "split_nl xs") auto
  show ?case
    by (simp add: Cons.IH s)
qed

lemma decoded_lines_Nil: "decoded_lines [] = []"
  by (simp add: decoded_lines_def)

lemma decoded_lines_append:
  assumes "t1 = [] \<or> last t1 = 0x0A"
  shows "decoded_lines (t1 @ t2) = decoded_lines t1 @ decoded_lines t2"
proof (cases "t1 = []")
  case True
  then show ?thesis by (simp add: decoded_lines_Nil)
next
  case False
  with assms obtain xs where t1: "t1 = xs @ [0x0A]"
    by (metis append_butlast_last_id)
  have "split_nl (t1 @ t2) = split_nl xs @ split_nl t2"
    using split_nl_append_newline [of xs t2] by (simp add: t1)
  moreover have "split_nl t1 = split_nl xs @ [[]]"
    using split_nl_append_newline [of xs "[]"] by (simp add: t1)
  ultimately show ?thesis
    by (simp add: decoded_lines_def)
qed

lemma map_parse_append:
  "map_parse parse (ls @ ms) =
     (case map_parse parse ls of
        Inl f \<Rightarrow> Inl f
      | Inr rs \<Rightarrow> (case map_parse parse ms of Inl f \<Rightarrow> Inl f | Inr rs' \<Rightarrow> Inr (rs @ rs')))"
  by (induction ls) (auto split: sum.splits)

lemma parse_lines_append:
  "parse_lines parse (ls @ ms) =
     (case parse_lines parse ls of
        Inl f \<Rightarrow> Inl f
      | Inr es \<Rightarrow> (case parse_lines parse ms of Inl f \<Rightarrow> Inl f | Inr es' \<Rightarrow> Inr (es @ es')))"
  by (simp add: parse_lines_def map_parse_append map_filter_def split: sum.splits)

lemma chunk_decoder_eq:
  "chunk_decoder parse s chunk =
     (parse_lines parse (decoded_lines (fst (decode_bytes s (chunk_bytes chunk)))),
      snd (decode_bytes s (chunk_bytes chunk)))"
  by (cases chunk)
     (simp_all add: chunk_decoder_def textDecoder_decode_def chunk_bytes_def parse_lines_def Let_def
       split: sum.splits)

lemma decode_bytes_append:
  "decode_bytes s (a @ b) =
     (fst (decode_bytes s a) @ fst (decode_bytes (snd (decode_bytes s a)) b),
      snd (decode_bytes (snd (decode_bytes s a)) b))"
  by (induction a arbitrary: s) (simp_all add: Let_def)

lemma serialize_lower [simp]: "td_lower (snd (serialize s cps)) = td_lower s"
  by (induction cps arbitrary: s) (simp_all add: Let_def)

lemma utf8_lead_lower: "0x80 \<le> td_lower s \<Longrightarrow> 0x80 \<le> td_lower (snd (utf8_lead s b))"
  by (simp add: utf8_lead_def)

lemma utf8_byte_lower: "0x80 \<le> td_lower s \<Longrightarrow> 0x80 \<le> td_lower (snd (utf8_byte s b))"
  by (simp add: utf8_byte_def utf8_lead_lower Let_def)

lemma decode_bytes_lower: "0x80 \<le> td_lower s \<Longrightarrow> 0x80 \<le> td_lower (snd (decode_bytes s bs))"
  by (induction bs arbitrary: s) (simp_all add: Let_def utf8_byte_lower)

lemma ends_nl_append: "ends_nl b \<Longrightarrow> ends_nl (a @ b)"
  by (simp add: ends_nl_def)

lemma newline_below_lower:
  fixes l :: "8 word"
  assumes "0x80 \<le> l"
  shows "\<not> l \<le> 0x0A"
  using assms by (simp add: word_le_nat_alt)

lemma utf8_byte_newline:
  assumes "0x80 \<le> td_lower s"
  shows "ends_nl (fst (utf8_byte s 0x0A))"
proof (cases "td_bytes_needed s = 0")
  case True
  then show ?thesis by (simp add: utf8_byte_def utf8_lead_def ends_nl_def)
next
  case False
  with newline_below_lower [OF assms] show ?thesis
    by (simp add: utf8_byte_def utf8_lead_def Let_def ends_nl_def)
qed

lemma serialize_newline: "ends_nl cps \<Longrightarrow> ends_nl (fst (serialize s cps))"
proof (induction cps arbitrary: s)
  case Nil
  then show ?case by (simp add: ends_nl_def)
next
  case (Cons cp cps)
  show ?case
  proof (cases "cps = []")
    case True
    with Cons.prems have "cp = 0x0A" by (simp add: ends_nl_def)
    with True show ?thesis by (simp add: ends_nl_def utf16_units_def Let_def)
  next
    case False
    with Cons.prems have "ends_nl cps" by (simp add: ends_nl_def)
    then have "\<And>s'. ends_nl (fst (serialize s' cps))" by (rule Cons.IH)
    then show ?thesis by (simp add: Let_def ends_nl_append)
  qed
qed

lemma decode_newline:
  assumes "0x80 \<le> td_lower s"
  shows "ends_nl (fst (decode_bytes s [0x0A]))"
  using serialize_newline [OF utf8_byte_newline [OF assms]]
  by (simp add: Let_def)

lemma decode_ends_with_newline:
  assumes "0x80 \<le> td_lower s" and "bs \<noteq> []" and "last bs = 0x0A"
  shows "ends_nl (fst (decode_bytes s bs))"
proof -
  have bs: "bs = butlast bs @ [0x0A]"
    using assms(2,3) by (metis append_butlast_last_id)
  have "ends_nl (fst (decode_bytes (snd (decode_bytes s (butlast bs))) [0x0A]))"
    by (rule decode_newline [OF decode_bytes_lower [OF assms(1)]])
  then have "ends_nl (fst (decode_bytes s (butlast bs @ [0x0A])))"
    by (simp only: decode_bytes_append fst_conv ends_nl_append)
  with bs show ?thesis by simp
qed

lemma decode_chunk_text:
  assumes "0x80 \<le> td_lower s" and "ends_with_newline chunk"
  shows "fst (decode_bytes s (chunk_bytes chunk)) = [] \<or> last (fst (decode_bytes s (chunk_bytes chunk))) = 0x0A"
proof (cases "chunk_bytes chunk = []")
  case True
  then show ?thesis by simp
next
  case False
  with assms(2) have "last (chunk_bytes chunk) = 0x0A"
    by (simp add: ends_with_newline_def)
  from decode_ends_with_newline [OF assms(1) False this] show ?thesis
    by (simp add: ends_nl_def)
qed

lemma collect_feed:
  assumes "0x80 \<le> td_lower s" and "list_all ends_with_newline (butlast chunks)"
  shows "collect (feed parse s chunks) =
           parse_lines parse (decoded_lines (fst (decode_bytes s (stream_of chunks))))"
  using assms
proof (induction chunks arbitrary: s)
  case Nil
  show ?case by (simp add: stream_of_def decoded_lines_Nil parse_lines_def map_filter_simps)
next
  case (Cons chunk chunks)
  let ?r = "decode_bytes s (chunk_bytes chunk)"
  show ?case
  proof (cases "chunks = []")
    case True
    then show ?thesis
      by (simp add: chunk_decoder_eq stream_of_def Let_def split: sum.splits)
  next
    case False
    with Cons.prems have e: "ends_with_newline chunk" and r: "list_all ends_with_newline (butlast chunks)"
      by simp_all
    have l: "0x80 \<le> td_lower (snd ?r)"
      by (rule decode_bytes_lower [OF Cons.prems(1)])
    have ih: "collect (feed parse (snd ?r) chunks) =
           parse_lines parse (decoded_lines (fst (decode_bytes (snd ?r) (stream_of chunks))))"
      by (rule Cons.IH [OF l r])
    have t: "fst ?r = [] \<or> last (fst ?r) = 0x0A"
      by (rule decode_chunk_text [OF Cons.prems(1) e])
    have "stream_of (chunk # chunks) = chunk_bytes chunk @ stream_of chunks"
      by (simp add: stream_of_def)
    then have "decoded_lines (fst (decode_bytes s (stream_of (chunk # chunks)))) =
        decoded_lines (fst ?r) @ decoded_lines (fst (decode_bytes (snd ?r) (stream_of chunks)))"
      using decode_bytes_append [of s "chunk_bytes chunk" "stream_of chunks"] decoded_lines_append [OF t]
      by simp
    then show ?thesis
      by (simp add: chunk_decoder_eq Let_def ih parse_lines_append split: sum.splits)
  qed
qed

lemma new_TextDecoder_lower: "0x80 \<le> td_lower new_TextDecoder"
  by (simp add: new_TextDecoder_def)


text \<open>
  C2, as the code has it: when every chunk but the last is empty or ends with a line
  feed, feeding the chunks one at a time gives what feeding the whole stream in one
  chunk gives: the same events in the same order, or the same first fault. Between
  calls the decoder keeps an incomplete multi-byte character, and nothing else.
\<close>

theorem chunks_of_whole_lines:
  assumes "list_all ends_with_newline (butlast chunks)"
  shows "collect (feed parse new_TextDecoder chunks) =
         collect (feed parse new_TextDecoder [Some (stream_of chunks)])"
proof -
  have "list_all ends_with_newline (butlast [Some (stream_of chunks)])"
    by simp
  then have "collect (feed parse new_TextDecoder [Some (stream_of chunks)]) =
      parse_lines parse (decoded_lines (fst (decode_bytes new_TextDecoder (stream_of [Some (stream_of chunks)]))))"
    by (rule collect_feed [OF new_TextDecoder_lower])
  moreover have "stream_of [Some (stream_of chunks)] = stream_of chunks"
    by (simp add: stream_of_def chunk_bytes_def)
  ultimately show ?thesis
    using collect_feed [OF new_TextDecoder_lower assms, of parse] by simp
qed

theorem chunks_of_whole_lines_witness:
  "list_all ends_with_newline
      (butlast [Some [0x30, 0x3A, 0x22, 0x61, 0x22, 0x0A], None, Some [0x30, 0x3A, 0x22, 0x62, 0x22]])
   \<and> collect (feed (parseStreamPart parse_json_string) new_TextDecoder
        [Some [0x30, 0x3A, 0x22, 0x61, 0x22, 0x0A], None, Some [0x30, 0x3A, 0x22, 0x62, 0x22]])
      = Inr [(js ''0'', JString (js ''a'')), (js ''0'', JString (js ''b''))]"
proof -
  let ?chunks = "[Some [0x30, 0x3A, 0x22, 0x61, 0x22, 0x0A], None, Some [0x30, 0x3A, 0x22, 0x62, 0x22 :: 8 word]]"
  have h: "list_all ends_with_newline (butlast ?chunks)"
    by (simp add: ends_with_newline_def chunk_bytes_def)
  have w: "collect (feed (parseStreamPart parse_json_string) new_TextDecoder [Some (stream_of ?chunks)])
      = Inr [(js ''0'', JString (js ''a'')), (js ''0'', JString (js ''b''))]"
    by code_simp
  show ?thesis
    using chunks_of_whole_lines [OF h, of "parseStreamPart parse_json_string"] h w by simp
qed

text \<open>
  C2 as stated fails: the stream \<open>0:"hi"\<close> and a line feed decodes to one event, but
  split after \<open>0:"h\<close> it decodes to none. The partial line at the end of the first chunk
  is parsed at once as a line of its own, and so is the rest in the second chunk.
\<close>

theorem partial_line_counterexample:
  "feed (parseStreamPart parse_json_string) new_TextDecoder
       [Some [0x30, 0x3A, 0x22, 0x68], Some [0x69, 0x22, 0x0A]] = [Inr [], Inr []]
   \<and> feed (parseStreamPart parse_json_string) new_TextDecoder
       [Some ([0x30, 0x3A, 0x22, 0x68] @ [0x69, 0x22, 0x0A])] = [Inr [(js ''0'', JString (js ''hi''))]]"
  by code_simp

section \<open>AssistantResponse: the text of an event\<close>

lemma split_nl_no_newline: "0x0A \<notin> set t \<Longrightarrow> split_nl t = [t]"
  by (induction t) auto

lemma hex_digit_no_newline:
  assumes "unat n < 16"
  shows "hex_digit n \<noteq> 0x0A"
proof -
  have "hex_digit n \<in> set (js ''0123456789abcdef'')"
    unfolding hex_digit_def using assms by (intro nth_mem) (simp add: js_def)
  then show ?thesis by (auto simp: js_def)
qed

lemma unat_and_15: "unat ((w :: 16 word) AND 0xF) < 16"
proof -
  have "unat (w AND 0xF) \<le> unat (0xF :: 16 word)"
    by (rule word_and_le1 [THEN word_le_nat_alt [THEN iffD1]])
  then show ?thesis by simp
qed

lemma unat_drop_12: "unat (drop_bit 12 (w :: 16 word)) < 16"
proof -
  have "unat w < 2 ^ 16"
    using unsigned_less [of w, where 'a = nat] by simp
  then have b: "unat w div 4096 < 16"
    by simp
  have "unat (drop_bit 12 w) = unat (w div 2 ^ 12)"
    by (simp only: drop_bit_eq_div)
  also have "\<dots> = unat w div unat (2 ^ 12 :: 16 word)"
    by (rule unat_div)
  also have "\<dots> = unat w div 4096"
    by simp
  finally show ?thesis
    using b by simp
qed

lemma unicodeEscape_no_newline: "0x0A \<notin> set (unicodeEscape c)"
  using hex_digit_no_newline [OF unat_and_15] hex_digit_no_newline [OF unat_drop_12]
  by (auto simp: unicodeEscape_def)

lemma quote_unit_no_newline: "0x0A \<notin> set (quote_unit c)"
  using unicodeEscape_no_newline [of c]
  by (auto simp: quote_unit_def js_def)

lemma lead_not_newline: "is_lead c \<Longrightarrow> c \<noteq> 0x0A"
  by (auto simp: is_lead_def)

lemma trail_not_newline: "is_trail c \<Longrightarrow> c \<noteq> 0x0A"
  by (auto simp: is_trail_def)

lemma quote_units_no_newline: "0x0A \<notin> set (quote_units s)"
  by (induction s rule: quote_units.induct)
     (auto simp: quote_unit_no_newline dest: lead_not_newline trail_not_newline)

lemma quoteJSONString_no_newline: "0x0A \<notin> set (quoteJSONString s)"
  by (simp add: quoteJSONString_def quote_units_no_newline)

lemma join_comma_no_newline: "list_all (\<lambda>x. 0x0A \<notin> set x) xs \<Longrightarrow> 0x0A \<notin> set (join_comma xs)"
  by (induction xs rule: join_comma.induct) auto

lemma stringify_no_newline: "0x0A \<notin> set (stringify j)"
proof (induction j rule: stringify.induct)
  case 1
  show ?case by (simp add: js_def)
next
  case (2 b)
  show ?case by (simp add: js_def)
next
  case (3 s)
  show ?case by (simp add: quoteJSONString_no_newline)
next
  case (4 xs)
  then have "list_all (\<lambda>x. 0x0A \<notin> set x) (map stringify xs)"
    by (simp add: list_all_iff)
  then show ?case
    using join_comma_no_newline by (simp add: js_def)
next
  case (5 kvs)
  then have "list_all (\<lambda>x. 0x0A \<notin> set x)
      (map (\<lambda>kv. quoteJSONString (fst kv) @ js '':'' @ stringify (snd kv)) kvs)"
    by (simp add: list_all_iff quoteJSONString_no_newline js_def)
  then show ?case
    using join_comma_no_newline by (simp add: js_def)
qed

lemma event_text_eq:
  "event_text ev = event_prefix ev @ js '': '' @ stringify (event_payload ev) @ js ''\<newline>\<newline>''"
  by (cases ev) (simp_all add: js_def)

lemma event_line_no_newline:
  "0x0A \<notin> set (event_prefix ev @ js '': '' @ stringify (event_payload ev))"
  using stringify_no_newline [of "event_payload ev"]
  by (cases ev) (simp_all add: js_def)

lemma split_two_newlines:
  assumes "0x0A \<notin> set t"
  shows "split_nl (t @ js ''\<newline>\<newline>'') = [t, [], []]"
proof -
  have "split_nl (t @ 0x0A # [0x0A]) = split_nl t @ split_nl [0x0A]"
    by (rule split_nl_append_newline)
  then show ?thesis
    by (simp add: split_nl_no_newline [OF assms] js_def)
qed


text \<open>
  C7, as the code has it: the text of an event is its prefix, a colon, one space, the
  JSON text of its payload and two line feeds. The characters up to the first colon
  are the prefix; the JSON text holds no line feed, so the text is one line followed by
  one empty line.
\<close>

theorem assistant_event_text:
  "event_text ev = event_prefix ev @ js '': '' @ stringify (event_payload ev) @ js ''\<newline>\<newline>''
   \<and> takeWhile (\<lambda>c. c \<noteq> 0x3A) (event_text ev) = event_prefix ev
   \<and> split_nl (event_text ev) = [event_prefix ev @ js '': '' @ stringify (event_payload ev), [], []]
   \<and> enqueue_event ev = textEncoder_encode (event_text ev)"
proof (intro conjI)
  show e: "event_text ev = event_prefix ev @ js '': '' @ stringify (event_payload ev) @ js ''\<newline>\<newline>''"
    by (rule event_text_eq)
  show "takeWhile (\<lambda>c. c \<noteq> 0x3A) (event_text ev) = event_prefix ev"
    by (cases ev) (simp_all add: js_def)
  show "split_nl (event_text ev) = [event_prefix ev @ js '': '' @ stringify (event_payload ev), [], []]"
    using split_two_newlines [OF event_line_no_newline, of ev] by (simp add: e)
  show "enqueue_event ev = textEncoder_encode (event_text ev)"
    by (simp add: enqueue_event_def)
qed

theorem assistant_event_text_witness:
  "split_nl (event_text (SendThreadId (js ''t1''))) = [js ''4: '' @ [0x22] @ js ''t1'' @ [0x22], [], []]
   \<and> takeWhile (\<lambda>c. c \<noteq> 0x3A) (event_text (SendThreadId (js ''t1''))) = js ''4''"
  using assistant_event_text [of "SendThreadId (js ''t1'')"]
  by (simp add: js_def quoteJSONString_def quote_unit_def is_lead_def is_trail_def)

text \<open>
  C7 as stated fails: the text for the thread id \<open>t1\<close> is \<open>4: "t1"\<close> and two line
  feeds, not \<open>4:"t1"\<close> and one.
\<close>

theorem assistant_event_counterexample:
  "event_text (SendThreadId (js ''t1'')) = js ''4: '' @ [0x22] @ js ''t1'' @ [0x22, 0x0A, 0x0A]
   \<and> event_text (SendThreadId (js ''t1''))
       \<noteq> event_prefix (SendThreadId (js ''t1'')) @ js '':''
           @ stringify (event_payload (SendThreadId (js ''t1''))) @ js ''\<newline>''"
  by (simp add: js_def quoteJSONString_def quote_unit_def is_lead_def is_trail_def)

section \<open>The chat hook: request cycles\<close>

lemmas demo_defs = demo_options_def demo_user_def demo_call_def demo_answer_def demo_chat_def
  demo_error_def demo_called_def demo_request_def

lemmas chat_defs = request_cycle_def getStreamedResponse_def mutate_def run_effect_def stop_def
  autoSubmit_def isAssistantMessageWithCompletedToolCalls_def countTrailingAssistantMessages_def
  row_read_def or_empty_def

lemma callbacks_append:
  "callbacks uc req prev ex (xs @ ys) st = callbacks uc req prev ex ys (callbacks uc req prev ex xs st)"
  by (induction xs arbitrary: st) simp_all

lemma env_step_fields [simp]:
  "ch_messages (env_step e st) = ch_messages st"
  "ch_error (env_step e st) = ch_error st"
  "ch_onErrorCalls (env_step e st) = ch_onErrorCalls st"
  "ch_requests (env_step e st) = ch_requests st"
  "ch_isLoading (env_step e st) = ch_isLoading st"
  "ch_input (env_step e st) = ch_input st"
  by (cases e; simp add: run_effect_def stop_def split: option.splits)+

lemma callbacks_env_fields:
  assumes "list_all is_env_step xs"
  shows "ch_messages (callbacks uc req prev ex xs st) = ch_messages st"
    and "ch_error (callbacks uc req prev ex xs st) = ch_error st"
    and "ch_onErrorCalls (callbacks uc req prev ex xs st) = ch_onErrorCalls st"
    and "ch_requests (callbacks uc req prev ex xs st) = ch_requests st"
  using assms
proof (induction xs arbitrary: st)
  case Nil
  {
    case 1 show ?case by simp
  next
    case 2 show ?case by simp
  next
    case 3 show ?case by simp
  next
    case 4 show ?case by simp
  }
next
  case (Cons x xs)
  {
    case 1 with Cons.IH(1) show ?case by (cases x) simp_all
  next
    case 2 with Cons.IH(2) show ?case by (cases x) simp_all
  next
    case 3 with Cons.IH(3) show ?case by (cases x) simp_all
  next
    case 4 with Cons.IH(4) show ?case by (cases x) simp_all
  }
qed

lemma callback_keeps [simp]:
  "ch_error (callback uc req prev ex x st) = ch_error st"
  "ch_onErrorCalls (callback uc req prev ex x st) = ch_onErrorCalls st"
  "ch_requests (callback uc req prev ex x st) = ch_requests st"
  "ch_isLoading (callback uc req prev ex x st) = ch_isLoading st"
  "ch_input (callback uc req prev ex x st) = ch_input st"
  by (cases x; simp add: mutate_def)+

lemma callbacks_keep [simp]:
  "ch_error (callbacks uc req prev ex xs st) = ch_error st"
  "ch_onErrorCalls (callbacks uc req prev ex xs st) = ch_onErrorCalls st"
  "ch_requests (callbacks uc req prev ex xs st) = ch_requests st"
  by (induction xs arbitrary: st; simp)+

lemma callbacks_after_update:
  assumes "list_all is_env_step post"
  shows "ch_messages (callbacks uc req prev ex (pre @ OnUpdate merged data # post) st)
           = req_messages req @ merged"
  using callbacks_env_fields(1) [OF assms]
  by (simp add: callbacks_append mutate_def)

lemma callbacks_after_restore:
  assumes "list_all is_env_step post"
  shows "ch_messages (callbacks uc req prev ex (pre @ RestoreMessagesOnFailure # post) st) = prev"
  using callbacks_env_fields(1) [OF assms]
  by (simp add: callbacks_append mutate_def)

lemma readRow_keeps [simp]:
  "ch_error (snd (readRow req rows s)) = ch_error (snd s)"
  "ch_onErrorCalls (snd (readRow req rows s)) = ch_onErrorCalls (snd s)"
  "ch_requests (snd (readRow req rows s)) = ch_requests (snd s)"
  by (induction req rows s rule: readRow.induct; simp add: row_read_def mutate_def Let_def)+

lemma request_cycle_abort:
  assumes "th_name e = js ''AbortError''"
  shows "request_cycle uc req (FromChatApi steps (Some e)) st =
     (Aborted,
      (callbacks uc req (ch_messagesRef st) (ch_streamData st) steps
         ((mutate (req_messages req)
            (st\<lparr>ch_isLoading := True, ch_error := None, ch_controllers := Suc (ch_controllers st),
                  ch_abortControllerRef := Some (ch_controllers st)\<rparr>))
          \<lparr>ch_requests := ch_requests st @ [req]\<rparr>))
      \<lparr>ch_abortControllerRef := None, ch_isLoading := False\<rparr>)"
  using assms
  by (simp add: request_cycle_def getStreamedResponse_def Let_def mutate_def)

lemma getStreamedResponse_action_fails:
  "ch_messages (snd (getStreamedResponse uc req (FromAction rows (Inl e)) st)) = ch_messagesRef st"
  by (simp add: getStreamedResponse_def Let_def mutate_def)

lemma getStreamedResponse_api_fails:
  assumes "list_all is_env_step post"
  shows "ch_messages (snd (getStreamedResponse uc req
            (FromChatApi (pre @ RestoreMessagesOnFailure # post) (Some e)) st)) = ch_messagesRef st"
  using callbacks_after_restore [OF assms]
  by (simp add: getStreamedResponse_def Let_def)

lemma request_cycle_messages:
  "ch_messages (snd (request_cycle uc req reply st))
     = ch_messages (snd (getStreamedResponse uc req reply
         (st\<lparr>ch_isLoading := True, ch_error := None, ch_controllers := Suc (ch_controllers st),
              ch_abortControllerRef := Some (ch_controllers st)\<rparr>)))"
  by (simp add: request_cycle_def Let_def split: sum.splits)

lemma request_cycle_fails:
  assumes "th_name e \<noteq> js ''AbortError''"
  shows "fst (request_cycle uc req (FromAction rows (Inl e)) st) = Failed"
    and "ch_error (snd (request_cycle uc req (FromAction rows (Inl e)) st)) = Some e"
    and "fst (request_cycle uc req (FromChatApi steps (Some e)) st) = Failed"
    and "ch_error (snd (request_cycle uc req (FromChatApi steps (Some e)) st)) = Some e"
  using assms
  by (simp_all add: request_cycle_def getStreamedResponse_def Let_def)






lemma last_attach_result_role:
  assumes "ms \<noteq> []"
  shows "msg_role (last (attach_result t r ms)) = msg_role (last ms)"
proof -
  have n: "List.enumerate 0 ms \<noteq> []"
    using assms by (simp add: enumerate_eq_zip)
  have "snd (last (List.enumerate 0 ms)) = last ms"
    using assms by (simp add: enumerate_eq_zip last_conv_nth)
  then show ?thesis
    using n by (simp add: attach_result_def last_map)
qed




text \<open>
  C10: when the input is the empty string, \<open>handleSubmit\<close> merges the metadata it was
  given, calls \<open>preventDefault\<close> and returns. It appends no message and dispatches no
  request (it needs no reply), and the message list, \<open>messagesRef.current\<close> and the input
  are as before.
\<close>

theorem handleSubmit_empty_input:
  assumes "ch_input st = []"
  shows "handleSubmit uc replies options metadata st =
           Some ((case metadata of
                    None \<Rightarrow> st
                  | Some m \<Rightarrow> st\<lparr>ch_extraMetadata := spread (ch_extraMetadata st) m\<rparr>)
                 \<lparr>ch_prevented := Suc (ch_prevented st)\<rparr>)
       \<and> (\<exists>st'. handleSubmit uc replies options metadata st = Some st'
             \<and> ch_messages st' = ch_messages st \<and> ch_messagesRef st' = ch_messagesRef st
             \<and> ch_input st' = ch_input st \<and> ch_requests st' = ch_requests st)"
  using assms by (cases metadata) (simp_all add: handleSubmit_def)

theorem handleSubmit_empty_input_witness:
  "ch_input (demo_chat [demo_user]) = []
   \<and> handleSubmit demo_options [] Undefined (Some [(js ''body'', Obj 1)]) (demo_chat [demo_user])
       = Some ((demo_chat [demo_user])\<lparr>ch_extraMetadata := [(js ''body'', Obj 1)], ch_prevented := 1\<rparr>)"
proof -
  have h: "ch_input (demo_chat [demo_user]) = []"
    by (simp add: demo_chat_def)
  show ?thesis
    using handleSubmit_empty_input [OF h, of demo_options "[]" Undefined "Some [(js ''body'', Obj 1)]"] h
    by (simp add: demo_chat_def spread_def)
qed

text \<open>
  C6: a cycle of a string api that is cancelled mid-stream. \<open>callChatApi\<close> has called
  \<open>onUpdate\<close> with the partial content, nothing but the effect and \<open>stop()\<close> follows, and
  it throws an \<open>AbortError\<close>. Then \<open>triggerRequest\<close> returns with the partial content
  still in the message list, with no error set and \<open>onError\<close> not called, and with this
  one request dispatched, whatever the auto-submit check would say of the messages.
\<close>

theorem abort_keeps_partial_content:
  assumes "th_name e = js ''AbortError''" and "list_all is_env_step post"
  shows "\<exists>st'. triggerRequest uc (FromChatApi (pre @ OnUpdate merged data # post) (Some e) # replies) req st
                 = Some st'
           \<and> ch_messages st' = req_messages req @ merged
           \<and> ch_error st' = None
           \<and> ch_onErrorCalls st' = ch_onErrorCalls st
           \<and> ch_requests st' = ch_requests st @ [req]
           \<and> \<not> ch_isLoading st'
           \<and> ch_abortControllerRef st' = None"
  using callbacks_after_update [OF assms(2)]
  by (simp add: request_cycle_abort [OF assms(1)] Let_def mutate_def)

theorem abort_keeps_partial_content_witness:
  "th_name (demo_error ''AbortError'') = js ''AbortError''
   \<and> list_all is_env_step [ApiEnv Effect, ApiEnv Stop]
   \<and> (\<exists>st'. triggerRequest demo_options
                [FromChatApi ([OnUpdate [demo_answer ''Hel''] None] @ OnUpdate [demo_called] None
                               # [ApiEnv Effect, ApiEnv Stop])
                   (Some (demo_error ''AbortError''))]
                demo_request (demo_chat []) = Some st'
          \<and> ch_messages st' = [demo_user, demo_called]
          \<and> autoSubmit demo_options (ch_messagesRef st')
          \<and> ch_error st' = None
          \<and> ch_onErrorCalls st' = []
          \<and> ch_requests st' = [demo_request]
          \<and> ch_aborted st' = [0])"
proof -
  have h1: "th_name (demo_error ''AbortError'') = js ''AbortError''"
    by (simp add: demo_error_def)
  have h2: "list_all is_env_step [ApiEnv Effect, ApiEnv Stop]"
    by simp
  show ?thesis
    using abort_keeps_partial_content [OF h1 h2, of demo_options "[OnUpdate [demo_answer ''Hel''] None]"
        "[demo_called]" None "[]" demo_request "demo_chat []"]
      h1 h2
    by (simp add: chat_defs demo_defs Let_def trailing_loop.simps)
qed




lemma getStreamedResponse_api_update:
  assumes "list_all is_env_step post"
  shows "ch_messages (snd (getStreamedResponse uc req
            (FromChatApi (pre @ OnUpdate merged data # post) (Some e)) st)) = req_messages req @ merged"
  using callbacks_after_update [OF assms]
  by (simp add: getStreamedResponse_def Let_def)




text \<open>
  C4, as the code has it. The snapshot \<open>previousMessages\<close> is \<open>messagesRef.current\<close> as
  it stood when the request was dispatched, whatever the effect writes to it later. A
  server action that rejects: the hook restores the snapshot itself. A string api: the
  hook hands \<open>restoreMessagesOnFailure\<close> to \<open>callChatApi\<close> and does nothing more, so the
  message list after the failure is what the last callback wrote: the snapshot after
  \<open>restoreMessagesOnFailure\<close>, the request's messages and the partial content after
  \<open>onUpdate\<close>. In each case the failure is reported: the error is set.
\<close>

theorem failed_request_restores_messages:
  assumes "th_name e \<noteq> js ''AbortError''" and "list_all is_env_step post"
  shows "fst (request_cycle uc req (FromAction rows (Inl e)) st) = Failed
       \<and> ch_messages (snd (request_cycle uc req (FromAction rows (Inl e)) st)) = ch_messagesRef st
       \<and> ch_error (snd (request_cycle uc req (FromAction rows (Inl e)) st)) = Some e
       \<and> fst (request_cycle uc req (FromChatApi (pre @ RestoreMessagesOnFailure # post) (Some e)) st) = Failed
       \<and> ch_messages (snd (request_cycle uc req (FromChatApi (pre @ RestoreMessagesOnFailure # post) (Some e)) st))
           = ch_messagesRef st
       \<and> ch_error (snd (request_cycle uc req (FromChatApi (pre @ RestoreMessagesOnFailure # post) (Some e)) st))
           = Some e
       \<and> fst (request_cycle uc req (FromChatApi (pre @ OnUpdate merged data # post) (Some e)) st) = Failed
       \<and> ch_messages (snd (request_cycle uc req (FromChatApi (pre @ OnUpdate merged data # post) (Some e)) st))
           = req_messages req @ merged
       \<and> ch_error (snd (request_cycle uc req (FromChatApi (pre @ OnUpdate merged data # post) (Some e)) st))
           = Some e"
  using request_cycle_fails [OF assms(1)] getStreamedResponse_api_fails [OF assms(2)]
    getStreamedResponse_api_update [OF assms(2)]
  by (simp add: request_cycle_messages getStreamedResponse_action_fails)

theorem failed_request_restores_messages_witness:
  "th_name (demo_error ''Error'') \<noteq> js ''AbortError''
   \<and> list_all is_env_step [ApiEnv Effect]
   \<and> ch_messages (snd (request_cycle demo_options demo_request
        (FromAction [Row (js ''Hel'') Undefined, ActionEnv Effect, Row (js ''Hello'') Undefined]
           (Inl (demo_error ''Error'')))
        (demo_chat []))) = []
   \<and> ch_messages (snd (request_cycle demo_options demo_request
        (FromChatApi ([OnUpdate [demo_answer ''Hel''] None, ApiEnv Effect]
                       @ RestoreMessagesOnFailure # [ApiEnv Effect])
           (Some (demo_error ''Error'')))
        (demo_chat []))) = []
   \<and> ch_messages (snd (request_cycle demo_options demo_request
        (FromChatApi ([OnUpdate [demo_answer ''Hel''] None, ApiEnv Effect]
                       @ OnUpdate [demo_answer ''Hello''] None # [ApiEnv Effect])
           (Some (demo_error ''Error'')))
        (demo_chat []))) = [demo_user, demo_answer ''Hello'']"
proof -
  have h1: "th_name (demo_error ''Error'') \<noteq> js ''AbortError''"
    by (simp add: demo_error_def js_def)
  have h2: "list_all is_env_step [ApiEnv Effect]"
    by simp
  have r: "ch_messagesRef (demo_chat []) = []" "req_messages demo_request = [demo_user]"
    by (simp_all add: demo_chat_def demo_request_def)
  show ?thesis
    using failed_request_restores_messages [OF h1 h2, of demo_options demo_request
        "[Row (js ''Hel'') Undefined, ActionEnv Effect, Row (js ''Hello'') Undefined]" "demo_chat []"
        "[OnUpdate [demo_answer ''Hel''] None, ApiEnv Effect]" "[demo_answer ''Hello'']" None]
      h1 h2 unfolding r by simp
qed

text \<open>
  C4 as stated fails in two ways. A string api that fails after two calls of
  \<open>onUpdate\<close>, with no call of \<open>restoreMessagesOnFailure\<close>: the appended user message
  and the partial content stay. And a snapshot that is behind the message list:
  \<open>experimental_addToolResult\<close> writes the messages with the result attached and
  dispatches at once, before the effect has run, so the message list just before the
  dispatch has the result, the snapshot has not, and after the failure the result is
  gone.
\<close>

theorem failed_cycle_counterexample:
  "ch_messages (demo_chat []) = []
   \<and> ch_messages (snd (request_cycle demo_options demo_request
         (FromChatApi [OnUpdate [demo_answer ''Hel''] None, ApiEnv Effect, OnUpdate [demo_answer ''Hello''] None]
            (Some (demo_error ''Error'')))
         (demo_chat [])))
       = [demo_user, demo_answer ''Hello'']
   \<and> ch_messages (mutate [demo_user, demo_called] (demo_chat [demo_user, demo_call])) = [demo_user, demo_called]
   \<and> ch_messages (snd (request_cycle demo_options
         \<lparr>req_messages = [demo_user, demo_called], req_options = Undefined\<rparr>
         (FromAction [Row (js ''It'') Undefined] (Inl (demo_error ''Error'')))
         (mutate [demo_user, demo_called] (demo_chat [demo_user, demo_call]))))
       = [demo_user, demo_call]
   \<and> [demo_user, demo_call] \<noteq> [demo_user, demo_called]
   \<and> (case experimental_addToolResult demo_options
              [FromAction [Row (js ''It'') Undefined] (Inl (demo_error ''Error''))]
              (js ''t1'') (Str (js ''sunny'')) (demo_chat [demo_user, demo_call]) of
         Inr (Some st') \<Rightarrow> ch_messages st' = [demo_user, demo_call]
       | _ \<Rightarrow> False)"
  by (simp add: chat_defs demo_defs attach_result_def enumerate_eq_zip upt_rec Let_def
      experimental_addToolResult_def js_def)

end
